theory Spec2Isabelle
  imports Complex_Main "HOL-Library.Word" "HOL-Library.Multiset"
begin

section \<open>Data model\<close>

text \<open>
  The program is a browser application over the File System Access API. Everything the
  host platform does (permission queries, file and directory handles, writable streams,
  the IndexedDB store behind idb-keyval, the picker and the modal dialogs) is outside
  the repository, so the host is a parameter of every function: a record of response
  functions. A response may depend on everything that happened before, so each response
  function reads the history, the list of calls issued so far. Every function of the
  program returns, beside its result, the list of calls it issued (in order); the caller
  appends them to the history. A thrown JavaScript exception is a value \<open>Inl e\<close>.
\<close>

type_synonym byte = "8 word"

text \<open>A thrown exception: its \<open>name\<close> and its \<open>message\<close>.\<close>

datatype error = Error (error_name: string) (error_message: string)

datatype kind = kind_file | kind_directory

datatype PermissionState = granted | denied | prompt

datatype FileSystemPermissionMode = read | readwrite

text \<open>
  A handle is an opaque capability; the program reads its \<open>kind\<close> and \<open>name\<close> only.
  \<open>href\<close> stands for the identity of the object.
\<close>

record FileSystemHandle =
  hkind :: kind
  hname :: string
  href :: nat

text \<open>A \<open>File\<close> (a Blob with a name): \<open>file.size\<close> is the number of its bytes.\<close>

record File =
  file_name :: string
  file_bytes :: "byte list"
  file_lastModified :: nat
  file_type :: string

definition file_size :: "File \<Rightarrow> nat" where
  "file_size f = length (file_bytes f)"

text \<open>
  \<open>Blob.slice(start, end)\<close> for non-negative arguments: both ends are clamped to the
  size, and the span is empty when the end is not after the start.
\<close>

definition slice :: "File \<Rightarrow> nat \<Rightarrow> nat \<Rightarrow> byte list" where
  "slice f start end' =
     (let relativeStart = min start (file_size f);
          relativeEnd = min end' (file_size f);
          span = (if relativeEnd \<le> relativeStart then 0 else relativeEnd - relativeStart)
      in take span (drop relativeStart (file_bytes f)))"

record EntryItem =
  name :: string
  kind :: kind
  handle :: FileSystemHandle
  size_opt :: "nat option"
  lastModified :: "nat option"
  type_opt :: "string option"

record StoredDirectoryInfo =
  dir_id :: string
  dir_name :: string

text \<open>The texts of the notifications are Chinese string literals in the source; each
  literal is a constructor here, with the values interpolated into it as arguments.\<close>

datatype toast_color = success | warning | error_color

datatype toast_title =
    Title_upload_failed
  | Title_insufficient_permission
  | Title_file_exists
  | Title_upload_succeeded
  | Title_delete_failed
  | Title_delete_succeeded
  | Title_create_failed
  | Title_create_succeeded
  | Title_directory_permission_expired
  | Title_enter_directory_failed
  | Title_directory_exists
  | Title_directory_added
  | Title_add_directory_failed

datatype toast_description =
    Descr_select_a_directory_first
  | Descr_no_write_permission_choose_again
  | Descr_file_exists_upload_skipped string
  | Descr_file_upload_finished string
  | Descr_file_upload_failed string string
  | Descr_cannot_determine_current_directory
  | Descr_no_write_permission_cannot_delete
  | Descr_deleted kind string
  | Descr_delete_failed string string
  | Descr_no_write_permission_cannot_create_folder
  | Descr_folder_created string
  | Descr_create_folder_failed string
  | Descr_permission_expired_removed_from_list
  | Descr_cannot_access_authorize_again
  | Descr_directory_already_listed string
  | Descr_directory_added string
  | Descr_message string

text \<open>The calls a function issues to the host, the store and the collaborators.\<close>

datatype event =
    QueryPermission FileSystemHandle FileSystemPermissionMode
  | RequestPermission FileSystemHandle FileSystemPermissionMode
  | GetFileHandle FileSystemHandle string
  | GetDirectoryHandle FileSystemHandle string
  | RemoveEntry FileSystemHandle string bool
  | CreateWritable FileSystemHandle
  | Write FileSystemHandle "byte list"
  | Close FileSystemHandle
  | OnProgress rat
  | Values FileSystemHandle
  | GetFile FileSystemHandle
  | IsSameEntry FileSystemHandle FileSystemHandle
  | IdbGet string
  | IdbSet string FileSystemHandle
  | IdbDel string
  | RandomUUID
  | ShowDirectoryPicker
  | DeleteConfirmModal EntryItem
  | CreateFolderModal "string list"
  | ToastAdd toast_title toast_description toast_color
  | ConsoleError

type_synonym history = "event list"

record host =
  queryPermission :: "history \<Rightarrow> FileSystemHandle \<Rightarrow> FileSystemPermissionMode \<Rightarrow> error + PermissionState"
  requestPermission :: "history \<Rightarrow> FileSystemHandle \<Rightarrow> FileSystemPermissionMode \<Rightarrow> error + PermissionState"
  getFileHandle :: "history \<Rightarrow> FileSystemHandle \<Rightarrow> string \<Rightarrow> error + FileSystemHandle"
  getDirectoryHandle_host :: "history \<Rightarrow> FileSystemHandle \<Rightarrow> string \<Rightarrow> error + FileSystemHandle"
  removeEntry :: "history \<Rightarrow> FileSystemHandle \<Rightarrow> string \<Rightarrow> bool \<Rightarrow> error + unit"
  createWritable :: "history \<Rightarrow> FileSystemHandle \<Rightarrow> error + unit"
  write_host :: "history \<Rightarrow> FileSystemHandle \<Rightarrow> byte list \<Rightarrow> error + unit"
  close_host :: "history \<Rightarrow> FileSystemHandle \<Rightarrow> error + unit"
  values_host :: "history \<Rightarrow> FileSystemHandle \<Rightarrow> FileSystemHandle list \<times> error option"
  getFile :: "history \<Rightarrow> FileSystemHandle \<Rightarrow> error + File"
  isSameEntry_host :: "history \<Rightarrow> FileSystemHandle \<Rightarrow> FileSystemHandle \<Rightarrow> error + bool"
  localeCompare :: "string \<Rightarrow> string \<Rightarrow> int"
  idbFault :: "history \<Rightarrow> event \<Rightarrow> error option"
  randomUUID :: "history \<Rightarrow> string"
  showDirectoryPicker :: "history \<Rightarrow> error + FileSystemHandle"
  deleteConfirmResult :: "history \<Rightarrow> EntryItem \<Rightarrow> error + bool"
  createFolderResult :: "history \<Rightarrow> string list \<Rightarrow> error + string option"
  math_round_percent :: "rat \<Rightarrow> int"

section \<open>Permission Gate\<close>

text \<open>\<open>requestDirectoryPermission(handle, mode = 'readwrite')\<close> of app/utils/file-system.ts.\<close>

definition requestDirectoryPermission ::
  "host \<Rightarrow> FileSystemHandle \<Rightarrow> FileSystemPermissionMode \<Rightarrow> history \<Rightarrow> bool \<times> event list" where
  "requestDirectoryPermission H h mode hist =
     (case queryPermission H hist h mode of
        Inl e \<Rightarrow> (False, [QueryPermission h mode, ConsoleError])
      | Inr permission \<Rightarrow>
          if permission = granted then (True, [QueryPermission h mode])
          else if permission = prompt then
            (case requestPermission H (hist @ [QueryPermission h mode]) h mode of
               Inl e \<Rightarrow> (False, [QueryPermission h mode, RequestPermission h mode, ConsoleError])
             | Inr requestPermission' \<Rightarrow>
                 (requestPermission' = granted, [QueryPermission h mode, RequestPermission h mode]))
          else (False, [QueryPermission h mode]))"

text \<open>The permission requests among the calls issued.\<close>

definition requests :: "event list \<Rightarrow> event list" where
  "requests evs = filter (\<lambda>e. case e of RequestPermission _ _ \<Rightarrow> True | _ \<Rightarrow> False) evs"

section \<open>Creating and writing files\<close>

text \<open>\<open>createNewDirectory\<close> and \<open>createNewFile\<close>: one host call each, with
  \<open>{ create: true }\<close>; an exception of the host propagates.\<close>

definition createNewDirectory ::
  "host \<Rightarrow> FileSystemHandle \<Rightarrow> string \<Rightarrow> history \<Rightarrow> (error + FileSystemHandle) \<times> event list" where
  "createNewDirectory H parentHandle newDirName hist =
     (getDirectoryHandle_host H hist parentHandle newDirName, [GetDirectoryHandle parentHandle newDirName])"

definition createNewFile ::
  "host \<Rightarrow> FileSystemHandle \<Rightarrow> string \<Rightarrow> history \<Rightarrow> (error + FileSystemHandle) \<times> event list" where
  "createNewFile H parentHandle newFileName hist =
     (getFileHandle H hist parentHandle newFileName, [GetFileHandle parentHandle newFileName])"

definition chunkSize :: nat where
  "chunkSize = 1024 * 1024"

lemma slice_chunk:
  "offset \<le> file_size f \<Longrightarrow> slice f offset (offset + n) = take n (drop offset (file_bytes f))"
  by (simp add: slice_def file_size_def Let_def min_def)

lemma chunkSize_pos: "0 < chunkSize"
  by (simp add: chunkSize_def)

lemma length_slice_chunk:
  "offset < file_size f \<Longrightarrow> length (slice f offset (offset + chunkSize)) = min chunkSize (file_size f - offset)"
  by (simp add: slice_chunk) (simp add: file_size_def)

text \<open>
  The \<open>while (offset < file.size)\<close> loop of \<open>writeFile\<close>. The progress callback is a
  function of the caller: it may change the caller's state \<open>'s\<close> and it may throw.
  \<open>offset / file.size\<close> is a quotient of two integers below \<open>2^53\<close>; it is modelled by
  the exact rational (the double is its correctly rounded value, so it is \<open>1\<close> exactly
  when the rational is, and the rounding keeps the order).
\<close>

function writeChunks ::
  "host \<Rightarrow> FileSystemHandle \<Rightarrow> File \<Rightarrow> (rat \<Rightarrow> 's \<Rightarrow> (error + unit) \<times> 's) \<Rightarrow> nat \<Rightarrow> 's \<Rightarrow> history
     \<Rightarrow> (error + unit) \<times> 's \<times> event list" where
  "writeChunks H writable f onProgress offset s hist =
     (if offset < file_size f then
        (let chunk = slice f offset (offset + chunkSize) in
         case write_host H hist writable chunk of
           Inl e \<Rightarrow> (Inl e, s, [Write writable chunk])
         | Inr _ \<Rightarrow>
             (let offset' = offset + length chunk;
                  progress = of_nat offset' / of_nat (file_size f) in
              case onProgress progress s of
                (Inl e, s') \<Rightarrow> (Inl e, s', [Write writable chunk, OnProgress progress])
              | (Inr _, s') \<Rightarrow>
                  (case writeChunks H writable f onProgress offset' s'
                          (hist @ [Write writable chunk, OnProgress progress]) of
                     (r, s'', evs) \<Rightarrow> (r, s'', Write writable chunk # OnProgress progress # evs))))
      else (Inr (), s, []))"
  by pat_completeness auto
termination
  by (relation "measure (\<lambda>(H, writable, f, onProgress, offset, s, hist). file_size f - offset)")
     (use chunkSize_pos in \<open>auto simp: length_slice_chunk\<close>)

declare writeChunks.simps [simp del]

text \<open>\<open>writeFile(handle, file, onProgress)\<close>: the whole body is inside \<open>try\<close>, and the
  \<open>catch\<close> logs and returns \<open>false\<close>. The result is \<open>Inl\<close> when the promise rejects.\<close>

definition writeFile ::
  "host \<Rightarrow> FileSystemHandle \<Rightarrow> File \<Rightarrow> (rat \<Rightarrow> 's \<Rightarrow> (error + unit) \<times> 's) \<Rightarrow> 's \<Rightarrow> history
     \<Rightarrow> (error + bool) \<times> 's \<times> event list" where
  "writeFile H h f onProgress s hist =
     (case createWritable H hist h of
        Inl e \<Rightarrow> (Inr False, s, [CreateWritable h, ConsoleError])
      | Inr _ \<Rightarrow>
          (case writeChunks H h f onProgress 0 s (hist @ [CreateWritable h]) of
             (Inl e, s', evs) \<Rightarrow> (Inr False, s', CreateWritable h # evs @ [ConsoleError])
           | (Inr _, s', evs) \<Rightarrow>
               (case close_host H (hist @ CreateWritable h # evs) h of
                  Inl e \<Rightarrow> (Inr False, s', CreateWritable h # evs @ [Close h, ConsoleError])
                | Inr _ \<Rightarrow> (Inr True, s', CreateWritable h # evs @ [Close h]))))"

text \<open>What a list of calls wrote: the chunks handed to \<open>writable.write\<close>, the bytes they
  hold together, and the values handed to the progress callback.\<close>

fun chunks :: "event list \<Rightarrow> byte list list" where
  "chunks [] = []"
| "chunks (Write h c # evs) = c # chunks evs"
| "chunks (e # evs) = chunks evs"

definition written :: "event list \<Rightarrow> byte list" where
  "written evs = concat (chunks evs)"

fun progressValues :: "event list \<Rightarrow> rat list" where
  "progressValues [] = []"
| "progressValues (OnProgress p # evs) = p # progressValues evs"
| "progressValues (e # evs) = progressValues evs"

text \<open>Between opening and closing the stream, every write is followed at once by one
  call of the progress callback.\<close>

fun alternating :: "FileSystemHandle \<Rightarrow> event list \<Rightarrow> bool" where
  "alternating h [] = True"
| "alternating h (Write h' c # OnProgress p # evs) = (h' = h \<and> alternating h evs)"
| "alternating h (e # evs) = False"

text \<open>Whether the host answered a call without throwing, at the history of the call.\<close>

fun responded :: "host \<Rightarrow> history \<Rightarrow> event \<Rightarrow> bool" where
  "responded H hist (GetFileHandle d n) = (\<not> isl (getFileHandle H hist d n))"
| "responded H hist (CreateWritable h) = (\<not> isl (createWritable H hist h))"
| "responded H hist (Write h c) = (\<not> isl (write_host H hist h c))"
| "responded H hist (Close h) = (\<not> isl (close_host H hist h))"
| "responded H hist e = True"

fun all_responded :: "host \<Rightarrow> history \<Rightarrow> event list \<Rightarrow> bool" where
  "all_responded H hist [] = True"
| "all_responded H hist (e # evs) = (responded H hist e \<and> all_responded H (hist @ [e]) evs)"

section \<open>Listing Service\<close>

text \<open>
  The body of the \<open>for await (const entry of handle.values())\<close> loop, over the entries
  the iterator yields: a file entry is opened once with \<open>getFile\<close>, whose exception
  propagates.
\<close>

fun listEntries :: "host \<Rightarrow> FileSystemHandle list \<Rightarrow> history \<Rightarrow> (error + EntryItem list) \<times> event list" where
  "listEntries H [] hist = (Inr [], [])"
| "listEntries H (entry # rest) hist =
     (if hkind entry = kind_file then
        (case getFile H hist entry of
           Inl e \<Rightarrow> (Inl e, [GetFile entry])
         | Inr f \<Rightarrow>
             (case listEntries H rest (hist @ [GetFile entry]) of
                (Inl e, evs) \<Rightarrow> (Inl e, GetFile entry # evs)
              | (Inr items, evs) \<Rightarrow>
                  (Inr (\<lparr>name = hname entry, kind = hkind entry, handle = entry,
                          size_opt = Some (file_size f),
                          lastModified = Some (file_lastModified f),
                          type_opt = Some (file_type f)\<rparr> # items),
                   GetFile entry # evs)))
      else
        (case listEntries H rest hist of
           (Inl e, evs) \<Rightarrow> (Inl e, evs)
         | (Inr items, evs) \<Rightarrow>
             (Inr (\<lparr>name = hname entry, kind = hkind entry, handle = entry,
                     size_opt = None, lastModified = None, type_opt = None\<rparr> # items),
              evs)))"

text \<open>The comparator handed to \<open>entryItems.sort\<close>; \<open>cmp\<close> is \<open>String.prototype.localeCompare\<close>.\<close>

definition compareEntryItems :: "(string \<Rightarrow> string \<Rightarrow> int) \<Rightarrow> EntryItem \<Rightarrow> EntryItem \<Rightarrow> int" where
  "compareEntryItems cmp a b =
     (if kind a \<noteq> kind b then (if kind a = kind_directory then - 1 else 1)
      else cmp (name a) (name b))"

text \<open>
  \<open>Array.prototype.sort\<close> is a stable sort (ECMAScript 2019): \<open>a\<close> is put before \<open>b\<close> when the
  comparator is negative, after it when positive, and their order is kept when it is
  zero. For a consistent comparator the result does not depend on the algorithm; it is
  modelled by a stable insertion sort.
\<close>

fun insert_sorted :: "('a \<Rightarrow> 'a \<Rightarrow> int) \<Rightarrow> 'a \<Rightarrow> 'a list \<Rightarrow> 'a list" where
  "insert_sorted c x [] = [x]"
| "insert_sorted c x (y # ys) = (if c x y \<le> 0 then x # y # ys else y # insert_sorted c x ys)"

definition array_sort :: "('a \<Rightarrow> 'a \<Rightarrow> int) \<Rightarrow> 'a list \<Rightarrow> 'a list" where
  "array_sort c xs = foldr (insert_sorted c) xs []"

text \<open>\<open>listDirectoryEntryItems(handle)\<close>. The iterator yields some entries and may then
  throw; an exception anywhere rejects the promise, so no partial listing is returned.\<close>

definition listDirectoryEntryItems ::
  "host \<Rightarrow> FileSystemHandle \<Rightarrow> history \<Rightarrow> (error + EntryItem list) \<times> event list" where
  "listDirectoryEntryItems H h hist =
     (case values_host H hist h of
        (entries, thrown) \<Rightarrow>
          (case listEntries H entries (hist @ [Values h]) of
             (Inl e, evs) \<Rightarrow> (Inl e, Values h # evs)
           | (Inr entryItems, evs) \<Rightarrow>
               (case thrown of
                  Some e \<Rightarrow> (Inl e, Values h # evs)
                | None \<Rightarrow>
                    (Inr (array_sort (compareEntryItems (localeCompare H)) entryItems),
                     Values h # evs))))"

text \<open>What the host must give for the sort to be defined: a consistent comparator.\<close>

definition consistent_comparator :: "('a \<Rightarrow> 'a \<Rightarrow> int) \<Rightarrow> bool" where
  "consistent_comparator c =
     ((\<forall>a b. (c a b < 0) = (0 < c b a)) \<and> (\<forall>a b d. c a b \<le> 0 \<and> c b d \<le> 0 \<longrightarrow> c a d \<le> 0))"

section \<open>Handle Store\<close>

text \<open>
  The store behind \<open>get\<close>, \<open>set\<close> and \<open>del\<close> of idb-keyval, a map from keys to directory
  handles. The library is not part of the repository; the three functions follow its
  interface: \<open>get\<close> resolves to the value or to \<open>undefined\<close>, \<open>set\<close> and \<open>del\<close> resolve to
  \<open>undefined\<close> (their type is \<open>Promise<void>\<close>), and each rejects when the database
  faults, leaving the store as it was. Whether a call faults is up to the host.
\<close>

type_synonym store = "string \<rightharpoonup> FileSystemHandle"

datatype jsvalue = JSUndefined | JSBoolean bool | JSHandle FileSystemHandle

fun truthy :: "jsvalue \<Rightarrow> bool" where
  "truthy JSUndefined = False"
| "truthy (JSBoolean b) = b"
| "truthy (JSHandle h) = True"

definition idb_get :: "host \<Rightarrow> string \<Rightarrow> store \<Rightarrow> history \<Rightarrow> (error + FileSystemHandle option) \<times> event list" where
  "idb_get H key st hist =
     (case idbFault H hist (IdbGet key) of
        Some e \<Rightarrow> (Inl e, [IdbGet key])
      | None \<Rightarrow> (Inr (st key), [IdbGet key]))"

definition idb_set :: "host \<Rightarrow> string \<Rightarrow> FileSystemHandle \<Rightarrow> store \<Rightarrow> history \<Rightarrow> (error + unit) \<times> store \<times> event list" where
  "idb_set H key v st hist =
     (case idbFault H hist (IdbSet key v) of
        Some e \<Rightarrow> (Inl e, st, [IdbSet key v])
      | None \<Rightarrow> (Inr (), st(key \<mapsto> v), [IdbSet key v]))"

definition idb_del :: "host \<Rightarrow> string \<Rightarrow> store \<Rightarrow> history \<Rightarrow> (error + unit) \<times> store \<times> event list" where
  "idb_del H key st hist =
     (case idbFault H hist (IdbDel key) of
        Some e \<Rightarrow> (Inl e, st, [IdbDel key])
      | None \<Rightarrow> (Inr (), st(key := None), [IdbDel key]))"

text \<open>\<open>saveDirectoryHandle(handle)\<close>: a fresh id from \<open>crypto.randomUUID()\<close>, then \<open>set\<close>.\<close>

definition saveDirectoryHandle ::
  "host \<Rightarrow> FileSystemHandle \<Rightarrow> store \<Rightarrow> history \<Rightarrow> (error + string) \<times> store \<times> event list" where
  "saveDirectoryHandle H h st hist =
     (let id' = randomUUID H hist in
      case idb_set H id' h st (hist @ [RandomUUID]) of
        (Inl e, st', evs) \<Rightarrow> (Inl e, st', RandomUUID # evs)
      | (Inr _, st', evs) \<Rightarrow> (Inr id', st', RandomUUID # evs))"

definition getDirectoryHandle ::
  "host \<Rightarrow> string \<Rightarrow> store \<Rightarrow> history \<Rightarrow> (error + FileSystemHandle option) \<times> event list" where
  "getDirectoryHandle H id' st hist = idb_get H id' st hist"

text \<open>\<open>removeDirectoryHandle(id)\<close> returns \<open>await get(id) && await del(id)\<close>: the value of
  \<open>get\<close> when it is falsy, and else the value \<open>del\<close> resolves to.\<close>

definition removeDirectoryHandle ::
  "host \<Rightarrow> string \<Rightarrow> store \<Rightarrow> history \<Rightarrow> (error + jsvalue) \<times> store \<times> event list" where
  "removeDirectoryHandle H id' st hist =
     (case idb_get H id' st hist of
        (Inl e, evs) \<Rightarrow> (Inl e, st, evs)
      | (Inr found, evs) \<Rightarrow>
          (let v = (case found of None \<Rightarrow> JSUndefined | Some h \<Rightarrow> JSHandle h) in
           if truthy v then
             (case idb_del H id' st (hist @ evs) of
                (Inl e, st', evs') \<Rightarrow> (Inl e, st', evs @ evs')
              | (Inr _, st', evs') \<Rightarrow> (Inr JSUndefined, st', evs @ evs'))
           else (Inr v, st, evs)))"

text \<open>\<open>isSameEntry(handle1?, handle2?)\<close> returns
  \<open>handle1 && handle2 && await handle1.isSameEntry(handle2)\<close>.\<close>

definition isSameEntry ::
  "host \<Rightarrow> FileSystemHandle option \<Rightarrow> FileSystemHandle option \<Rightarrow> history \<Rightarrow> (error + jsvalue) \<times> event list" where
  "isSameEntry H handle1 handle2 hist =
     (case handle1 of
        None \<Rightarrow> (Inr JSUndefined, [])
      | Some h1 \<Rightarrow>
          (case handle2 of
             None \<Rightarrow> (Inr JSUndefined, [])
           | Some h2 \<Rightarrow>
               (case isSameEntry_host H hist h1 h2 of
                  Inl e \<Rightarrow> (Inl e, [IsSameEntry h1 h2])
                | Inr b \<Rightarrow> (Inr (JSBoolean b), [IsSameEntry h1 h2]))))"

section \<open>Session Controller\<close>

text \<open>
  The reactive state of the page component, and the Handle Store it reads and writes.
  Every operation takes the state and the history and returns the new state and the
  calls it issued; an operation whose promise can reject returns \<open>Inl\<close> then.
\<close>

datatype view = home | directory

record NavigationFrame =
  frame_name :: string
  frame_handle :: FileSystemHandle

record session =
  currentView :: view
  storedDirectories :: "StoredDirectoryInfo list"
  currentPathDirectories :: "NavigationFrame list"
  fileList :: "EntryItem list"
  loading :: bool
  uploading :: bool
  uploadProgress :: "string \<rightharpoonup> int"
  uploadQueue :: "File list"
  handleStore :: store

definition removeDirectory ::
  "host \<Rightarrow> string \<Rightarrow> session \<Rightarrow> history \<Rightarrow> (error + unit) \<times> session \<times> event list" where
  "removeDirectory H id' s hist =
     (case removeDirectoryHandle H id' (handleStore s) hist of
        (Inl e, st, evs) \<Rightarrow> (Inl e, s\<lparr>handleStore := st\<rparr>, evs)
      | (Inr _, st, evs) \<Rightarrow>
          (Inr (),
           s\<lparr>handleStore := st,
             storedDirectories := filter (\<lambda>dir. dir_id dir \<noteq> id') (storedDirectories s)\<rparr>,
           evs))"

text \<open>The \<open>catch\<close> block of \<open>enterDirectory\<close>, and its \<open>else\<close> branch (the handle is
  missing or the permission is not granted), which runs inside the \<open>try\<close>.\<close>

definition enterDirectory_catch :: "event list" where
  "enterDirectory_catch =
     [ConsoleError,
      ToastAdd Title_enter_directory_failed Descr_cannot_access_authorize_again error_color]"

definition enterDirectory_invalid ::
  "host \<Rightarrow> StoredDirectoryInfo \<Rightarrow> session \<Rightarrow> history \<Rightarrow> session \<times> event list" where
  "enterDirectory_invalid H directoryData s hist =
     (case removeDirectory H (dir_id directoryData) s hist of
        (Inl e, s', evs) \<Rightarrow> (s', evs @ enterDirectory_catch)
      | (Inr _, s', evs) \<Rightarrow>
          (s', evs @ [ToastAdd Title_directory_permission_expired
                        Descr_permission_expired_removed_from_list warning]))"

definition enterDirectory ::
  "host \<Rightarrow> StoredDirectoryInfo \<Rightarrow> session \<Rightarrow> history \<Rightarrow> session \<times> event list" where
  "enterDirectory H directoryData s hist =
     (let s0 = s\<lparr>loading := True\<rparr> in
      case getDirectoryHandle H (dir_id directoryData) (handleStore s0) hist of
        (Inl e, ev1) \<Rightarrow> (s0\<lparr>loading := False\<rparr>, ev1 @ enterDirectory_catch)
      | (Inr None, ev1) \<Rightarrow>
          (case enterDirectory_invalid H directoryData s0 (hist @ ev1) of
             (s1, ev2) \<Rightarrow> (s1\<lparr>loading := False\<rparr>, ev1 @ ev2))
      | (Inr (Some directoryHandle), ev1) \<Rightarrow>
          (case requestDirectoryPermission H directoryHandle readwrite (hist @ ev1) of
             (ok, ev2) \<Rightarrow>
               if ok then
                 (let s1 = s0\<lparr>currentPathDirectories := currentPathDirectories s0 @
                                  [\<lparr>frame_name = dir_name directoryData, frame_handle = directoryHandle\<rparr>],
                               currentView := directory\<rparr> in
                  case listDirectoryEntryItems H directoryHandle (hist @ ev1 @ ev2) of
                    (Inl e, ev3) \<Rightarrow> (s1\<lparr>loading := False\<rparr>, ev1 @ ev2 @ ev3 @ enterDirectory_catch)
                  | (Inr items, ev3) \<Rightarrow> (s1\<lparr>fileList := items, loading := False\<rparr>, ev1 @ ev2 @ ev3))
               else
                 (case enterDirectory_invalid H directoryData s0 (hist @ ev1 @ ev2) of
                    (s1, ev3) \<Rightarrow> (s1\<lparr>loading := False\<rparr>, ev1 @ ev2 @ ev3))))"

text \<open>The duplicate check of \<open>addNewDirectory\<close>: the \<open>for\<close> loop over the registered
  directories, which sets \<open>exists\<close> and breaks at the first handle that is the same entry.
  Nothing inside the loop catches an exception.\<close>

fun addNewDirectory_exists ::
  "host \<Rightarrow> FileSystemHandle \<Rightarrow> StoredDirectoryInfo list \<Rightarrow> store \<Rightarrow> history \<Rightarrow> (error + bool) \<times> event list" where
  "addNewDirectory_exists H h [] st hist = (Inr False, [])"
| "addNewDirectory_exists H h (directoryInfo # rest) st hist =
     (case getDirectoryHandle H (dir_id directoryInfo) st hist of
        (Inl e, ev1) \<Rightarrow> (Inl e, ev1)
      | (Inr directoryHandle, ev1) \<Rightarrow>
          (case isSameEntry H (Some h) directoryHandle (hist @ ev1) of
             (Inl e, ev2) \<Rightarrow> (Inl e, ev1 @ ev2)
           | (Inr same, ev2) \<Rightarrow>
               if truthy same then (Inr True, ev1 @ ev2)
               else
                 (case addNewDirectory_exists H h rest st (hist @ ev1 @ ev2) of
                    (r, ev3) \<Rightarrow> (r, ev1 @ ev2 @ ev3))))"

definition addNewDirectory_catch :: "error \<Rightarrow> event list" where
  "addNewDirectory_catch e =
     (if error_name e \<noteq> ''AbortError''
      then [ToastAdd Title_add_directory_failed (Descr_message (error_message e)) error_color]
      else [])"

definition addNewDirectory :: "host \<Rightarrow> session \<Rightarrow> history \<Rightarrow> session \<times> event list" where
  "addNewDirectory H s hist =
     (let s0 = s\<lparr>loading := True\<rparr> in
      case showDirectoryPicker H hist of
        Inl e \<Rightarrow> (s0\<lparr>loading := False\<rparr>, ShowDirectoryPicker # addNewDirectory_catch e)
      | Inr h \<Rightarrow>
          (case addNewDirectory_exists H h (storedDirectories s0) (handleStore s0)
                  (hist @ [ShowDirectoryPicker]) of
             (Inl e, ev1) \<Rightarrow> (s0\<lparr>loading := False\<rparr>, ShowDirectoryPicker # ev1 @ addNewDirectory_catch e)
           | (Inr exists, ev1) \<Rightarrow>
               if exists then
                 (s0\<lparr>loading := False\<rparr>,
                  ShowDirectoryPicker # ev1 @
                    [ToastAdd Title_directory_exists (Descr_directory_already_listed (hname h)) warning])
               else
                 (case saveDirectoryHandle H h (handleStore s0) (hist @ ShowDirectoryPicker # ev1) of
                    (Inl e, st, ev2) \<Rightarrow>
                      (s0\<lparr>handleStore := st, loading := False\<rparr>,
                       ShowDirectoryPicker # ev1 @ ev2 @ addNewDirectory_catch e)
                  | (Inr handleId, st, ev2) \<Rightarrow>
                      (s0\<lparr>handleStore := st,
                          storedDirectories := storedDirectories s0 @
                            [\<lparr>dir_id = handleId, dir_name = hname h\<rparr>],
                          loading := False\<rparr>,
                       ShowDirectoryPicker # ev1 @ ev2 @
                         [ToastAdd Title_directory_added (Descr_directory_added (hname h)) success]))))"

text \<open>
  One round of the \<open>for (const file of fileArray)\<close> loop of \<open>handleFileUpload\<close>: the state
  it changes is the progress table. The result of \<open>writeFile\<close> is awaited and dropped.
  The callback stores \<open>Math.round(progress * 100)\<close>, which the engine computes on doubles
  (the product is rounded before \<open>Math.round\<close>); the double \<open>progress\<close> is determined by the
  exact quotient, so the stored value is a function of it, \<open>math_round_percent\<close> of the
  host.
\<close>

definition handleFileUpload_file ::
  "host \<Rightarrow> FileSystemHandle \<Rightarrow> EntryItem list \<Rightarrow> File \<Rightarrow> (string \<rightharpoonup> int) \<Rightarrow> history
     \<Rightarrow> (string \<rightharpoonup> int) \<times> event list" where
  "handleFileUpload_file H targetDirectoryHandle snapshot f progress hist =
     (let progress0 = progress(file_name f \<mapsto> 0) in
      case find (\<lambda>item. name item = file_name f \<and> kind item = kind_file) snapshot of
        Some existingFile \<Rightarrow>
          (progress0(file_name f \<mapsto> - 1),
           [ToastAdd Title_file_exists (Descr_file_exists_upload_skipped (file_name f)) warning])
      | None \<Rightarrow>
          (case createNewFile H targetDirectoryHandle (file_name f) hist of
             (Inl e, ev1) \<Rightarrow>
               (progress0(file_name f \<mapsto> - 1),
                ev1 @ [ToastAdd Title_upload_failed
                         (Descr_file_upload_failed (file_name f) (error_message e)) error_color])
           | (Inr fileHandle, ev1) \<Rightarrow>
               (case writeFile H fileHandle f
                       (\<lambda>p table. (Inr (), table(file_name f \<mapsto> math_round_percent H p)))
                       progress0 (hist @ ev1) of
                  (Inl e, progress1, ev2) \<Rightarrow>
                    (progress1(file_name f \<mapsto> - 1),
                     ev1 @ ev2 @ [ToastAdd Title_upload_failed
                         (Descr_file_upload_failed (file_name f) (error_message e)) error_color])
                | (Inr written_ok, progress1, ev2) \<Rightarrow>
                    (progress1(file_name f \<mapsto> 100),
                     ev1 @ ev2 @ [ToastAdd Title_upload_succeeded
                         (Descr_file_upload_finished (file_name f)) success]))))"

text \<open>The loop: the files one at a time, in order. It returns what each round issued.\<close>

fun handleFileUpload_loop ::
  "host \<Rightarrow> FileSystemHandle \<Rightarrow> EntryItem list \<Rightarrow> File list \<Rightarrow> (string \<rightharpoonup> int) \<Rightarrow> history
     \<Rightarrow> (string \<rightharpoonup> int) \<times> event list list" where
  "handleFileUpload_loop H target snapshot [] progress hist = (progress, [])"
| "handleFileUpload_loop H target snapshot (f # fs) progress hist =
     (case handleFileUpload_file H target snapshot f progress hist of
        (progress1, evs) \<Rightarrow>
          (case handleFileUpload_loop H target snapshot fs progress1 (hist @ evs) of
             (progress2, rounds) \<Rightarrow> (progress2, evs # rounds)))"

definition handleFileUpload ::
  "host \<Rightarrow> File list \<Rightarrow> session \<Rightarrow> history \<Rightarrow> (error + unit) \<times> session \<times> event list" where
  "handleFileUpload H files s hist =
     (case currentPathDirectories s of
        [] \<Rightarrow> (Inr (), s, [ToastAdd Title_upload_failed Descr_select_a_directory_first error_color])
      | _ # _ \<Rightarrow>
          (let targetDirectoryHandle = frame_handle (last (currentPathDirectories s)) in
           case requestDirectoryPermission H targetDirectoryHandle readwrite hist of
             (hasWritePermission, ev1) \<Rightarrow>
               if \<not> hasWritePermission then
                 (Inr (), s,
                  ev1 @ [ToastAdd Title_insufficient_permission
                           Descr_no_write_permission_choose_again error_color])
               else
                 (let s1 = s\<lparr>uploading := True, uploadQueue := files\<rparr> in
                  case handleFileUpload_loop H targetDirectoryHandle (fileList s1) files
                         (uploadProgress s1) (hist @ ev1) of
                    (progress, rounds) \<Rightarrow>
                      (case listDirectoryEntryItems H targetDirectoryHandle
                              (hist @ ev1 @ concat rounds) of
                         (Inl e, ev3) \<Rightarrow>
                           (Inl e,
                            s1\<lparr>uploading := False, uploadQueue := [], uploadProgress := Map.empty\<rparr>,
                            ev1 @ concat rounds @ ev3)
                       | (Inr items, ev3) \<Rightarrow>
                           (Inr (),
                            s1\<lparr>fileList := items, uploading := False, uploadQueue := [],
                               uploadProgress := Map.empty\<rparr>,
                            ev1 @ concat rounds @ ev3)))))"

definition deleteItem :: "host \<Rightarrow> EntryItem \<Rightarrow> session \<Rightarrow> history \<Rightarrow> session \<times> event list" where
  "deleteItem H item s hist =
     (case currentPathDirectories s of
        [] \<Rightarrow> (s, [ToastAdd Title_delete_failed Descr_cannot_determine_current_directory error_color])
      | _ # _ \<Rightarrow>
          (let targetDirectoryHandle = frame_handle (last (currentPathDirectories s)) in
           case requestDirectoryPermission H targetDirectoryHandle readwrite hist of
             (hasWritePermission, ev1) \<Rightarrow>
               if \<not> hasWritePermission then
                 (s, ev1 @ [ToastAdd Title_insufficient_permission
                              Descr_no_write_permission_cannot_delete error_color])
               else
                 (let failed = (\<lambda>e. ToastAdd Title_delete_failed
                                   (Descr_delete_failed (name item) (error_message e)) error_color) in
                  case deleteConfirmResult H (hist @ ev1) item of
                    Inl e \<Rightarrow> (s, ev1 @ [DeleteConfirmModal item, failed e])
                  | Inr shouldDelete \<Rightarrow>
                      if \<not> shouldDelete then (s, ev1 @ [DeleteConfirmModal item])
                      else
                        (let ev2 = [DeleteConfirmModal item,
                                    RemoveEntry targetDirectoryHandle (name item) (kind item = kind_directory)] in
                         case removeEntry H (hist @ ev1 @ [DeleteConfirmModal item]) targetDirectoryHandle
                                (name item) (kind item = kind_directory) of
                           Inl e \<Rightarrow> (s, ev1 @ ev2 @ [failed e])
                         | Inr _ \<Rightarrow>
                             (let succeeded = [ToastAdd Title_delete_succeeded
                                            (Descr_deleted (kind item) (name item)) success] in
                              case listDirectoryEntryItems H targetDirectoryHandle
                                     (hist @ ev1 @ ev2 @ succeeded) of
                                (Inl e, ev3) \<Rightarrow> (s, ev1 @ ev2 @ succeeded @ ev3 @ [failed e])
                              | (Inr items, ev3) \<Rightarrow>
                                  (s\<lparr>fileList := items\<rparr>, ev1 @ ev2 @ succeeded @ ev3))))))"

definition createNewFolder :: "host \<Rightarrow> session \<Rightarrow> history \<Rightarrow> session \<times> event list" where
  "createNewFolder H s hist =
     (case currentPathDirectories s of
        [] \<Rightarrow> (s, [ToastAdd Title_create_failed Descr_select_a_directory_first error_color])
      | _ # _ \<Rightarrow>
          (let targetDirectory = frame_handle (last (currentPathDirectories s)) in
           case requestDirectoryPermission H targetDirectory readwrite hist of
             (hasWritePermission, ev1) \<Rightarrow>
               if \<not> hasWritePermission then
                 (s, ev1 @ [ToastAdd Title_insufficient_permission
                              Descr_no_write_permission_cannot_create_folder error_color])
               else
                 (let failed = (\<lambda>e. ToastAdd Title_create_failed
                                   (Descr_create_folder_failed (error_message e)) error_color);
                      existingFolders = map name (filter (\<lambda>item. kind item = kind_directory) (fileList s)) in
                  case createFolderResult H (hist @ ev1) existingFolders of
                    Inl e \<Rightarrow> (s, ev1 @ [CreateFolderModal existingFolders, failed e])
                  | Inr None \<Rightarrow> (s, ev1 @ [CreateFolderModal existingFolders])
                  | Inr (Some folderName) \<Rightarrow>
                      if folderName = [] then (s, ev1 @ [CreateFolderModal existingFolders])
                      else
                        (case createNewDirectory H targetDirectory folderName
                                (hist @ ev1 @ [CreateFolderModal existingFolders]) of
                           (Inl e, ev2) \<Rightarrow>
                             (s, ev1 @ CreateFolderModal existingFolders # ev2 @ [failed e])
                         | (Inr created, ev2) \<Rightarrow>
                             (let succeeded = [ToastAdd Title_create_succeeded
                                            (Descr_folder_created folderName) success] in
                              case listDirectoryEntryItems H targetDirectory
                                     (hist @ ev1 @ CreateFolderModal existingFolders # ev2 @ succeeded) of
                                (Inl e, ev3) \<Rightarrow>
                                  (s, ev1 @ CreateFolderModal existingFolders # ev2 @ succeeded @ ev3 @ [failed e])
                              | (Inr items, ev3) \<Rightarrow>
                                  (s\<lparr>fileList := items\<rparr>,
                                   ev1 @ CreateFolderModal existingFolders # ev2 @ succeeded @ ev3))))))"

text \<open>The calls that change the host's file system, and the notifications.\<close>

fun mutation :: "event \<Rightarrow> bool" where
  "mutation (GetFileHandle d n) = True"
| "mutation (GetDirectoryHandle d n) = True"
| "mutation (RemoveEntry d n r) = True"
| "mutation (CreateWritable h) = True"
| "mutation (Write h c) = True"
| "mutation (Close h) = True"
| "mutation e = False"

fun notification :: "event \<Rightarrow> bool" where
  "notification (ToastAdd t d c) = True"
| "notification e = False"

fun storing :: "event \<Rightarrow> bool" where
  "storing (IdbSet k h) = True"
| "storing e = False"

text \<open>The two notifications of \<open>enterDirectory\<close>.\<close>

definition expired_toast :: event where
  "expired_toast = ToastAdd Title_directory_permission_expired Descr_permission_expired_removed_from_list warning"

definition enter_failed_toast :: event where
  "enter_failed_toast = ToastAdd Title_enter_directory_failed Descr_cannot_access_authorize_again error_color"

text \<open>The top of the navigation stack, the Permission Gate run on it as the mutations
  run it, and the entry of the snapshot a file of a batch collides with.\<close>

abbreviation targetDirectory :: "session \<Rightarrow> FileSystemHandle" where
  "targetDirectory s \<equiv> frame_handle (last (currentPathDirectories s))"

abbreviation gate :: "host \<Rightarrow> session \<Rightarrow> history \<Rightarrow> bool \<times> event list" where
  "gate H s hist \<equiv> requestDirectoryPermission H (targetDirectory s) readwrite hist"

abbreviation existingFile :: "EntryItem list \<Rightarrow> File \<Rightarrow> EntryItem option" where
  "existingFile snapshot f \<equiv> find (\<lambda>item. name item = file_name f \<and> kind item = kind_file) snapshot"

text \<open>The calls and notifications of a delete and of a create-folder that is performed,
  the names of the folders in the snapshot, and the rounds of an upload, one list of calls
  per file of the batch.\<close>

abbreviation removal :: "session \<Rightarrow> EntryItem \<Rightarrow> event" where
  "removal s item \<equiv> RemoveEntry (targetDirectory s) (name item) (kind item = kind_directory)"

abbreviation deleted_toast :: "EntryItem \<Rightarrow> event" where
  "deleted_toast item \<equiv> ToastAdd Title_delete_succeeded (Descr_deleted (kind item) (name item)) success"

abbreviation existingFolders :: "session \<Rightarrow> string list" where
  "existingFolders s \<equiv> map name (filter (\<lambda>item. kind item = kind_directory) (fileList s))"

abbreviation created_toast :: "string \<Rightarrow> event" where
  "created_toast folderName \<equiv> ToastAdd Title_create_succeeded (Descr_folder_created folderName) success"

abbreviation uploadRounds :: "host \<Rightarrow> File list \<Rightarrow> session \<Rightarrow> history \<Rightarrow> event list list" where
  "uploadRounds H files s hist \<equiv>
     snd (handleFileUpload_loop H (targetDirectory s) (fileList s) files (uploadProgress s)
            (hist @ snd (gate H s hist)))"



section \<open>Test doubles\<close>

text \<open>A host on which every call succeeds, and the inputs of the worked examples. The
  rounding of this host is the one of the exact product; it is the engine's wherever
  \<open>progress * 100\<close> is exact on doubles, as at progress 1, the value that the uploads of
  the worked examples report.\<close>

definition quiet_host :: host where
  "quiet_host =
     \<lparr> queryPermission = (\<lambda>_ _ _. Inr granted),
       requestPermission = (\<lambda>_ _ _. Inr granted),
       getFileHandle = (\<lambda>_ _ n. Inr \<lparr>hkind = kind_file, hname = n, href = 1\<rparr>),
       getDirectoryHandle_host = (\<lambda>_ _ n. Inr \<lparr>hkind = kind_directory, hname = n, href = 2\<rparr>),
       removeEntry = (\<lambda>_ _ _ _. Inr ()),
       createWritable = (\<lambda>_ _. Inr ()),
       write_host = (\<lambda>_ _ _. Inr ()),
       close_host = (\<lambda>_ _. Inr ()),
       values_host = (\<lambda>_ _. ([], None)),
       getFile = (\<lambda>_ _. Inl (Error ''NotFoundError'' ''no such file'')),
       isSameEntry_host = (\<lambda>_ a b. Inr (href a = href b)),
       localeCompare = (\<lambda>a b. 0),
       idbFault = (\<lambda>_ _. None),
       randomUUID = (\<lambda>_. ''uuid-0''),
       showDirectoryPicker = (\<lambda>_. Inl (Error ''AbortError'' ''The user aborted a request.'')),
       deleteConfirmResult = (\<lambda>_ _. Inr False),
       createFolderResult = (\<lambda>_ _. Inr None),
       math_round_percent = (\<lambda>p. \<lfloor>p * 100 + 1 / 2\<rfloor>) \<rparr>"

definition note_handle :: FileSystemHandle where
  "note_handle = \<lparr>hkind = kind_file, hname = ''note.txt'', href = 1\<rparr>"

definition note_file :: File where
  "note_file = \<lparr>file_name = ''note.txt'', file_bytes = [72, 105, 33], file_lastModified = 0, file_type = ''text/plain''\<rparr>"


definition count_calls :: "rat \<Rightarrow> nat \<Rightarrow> (error + unit) \<times> nat" where
  "count_calls p n = (Inr (), Suc n)"

definition docs :: FileSystemHandle where
  "docs = \<lparr>hkind = kind_directory, hname = ''Docs'', href = 0\<rparr>"

definition disk_full :: error where
  "disk_full = Error ''QuotaExceededError'' ''disk full''"

text \<open>A stand-in for \<open>localeCompare\<close>: the order of the character codes.\<close>

fun codepoint_compare :: "string \<Rightarrow> string \<Rightarrow> int" where
  "codepoint_compare [] [] = 0"
| "codepoint_compare [] (y # ys) = - 1"
| "codepoint_compare (x # xs) [] = 1"
| "codepoint_compare (x # xs) (y # ys) =
     (if (of_char x :: nat) < of_char y then - 1
      else if (of_char y :: nat) < of_char x then 1
      else codepoint_compare xs ys)"

definition child :: "kind \<Rightarrow> string \<Rightarrow> nat \<Rightarrow> FileSystemHandle" where
  "child k n i = \<lparr>hkind = k, hname = n, href = i\<rparr>"

definition listing_host :: host where
  "listing_host = quiet_host
     \<lparr> values_host := (\<lambda>_ _. ([child kind_file ''b.txt'' 1, child kind_file ''A.txt'' 2,
                               child kind_directory ''zdir'' 3, child kind_directory ''adir'' 4], None)),
       getFile := (\<lambda>_ h. Inr \<lparr>file_name = hname h, file_bytes = [], file_lastModified = 0, file_type = []\<rparr>),
       localeCompare := codepoint_compare \<rparr>"

definition music :: FileSystemHandle where
  "music = \<lparr>hkind = kind_directory, hname = ''Music'', href = 6\<rparr>"

definition pictures :: FileSystemHandle where
  "pictures = \<lparr>hkind = kind_directory, hname = ''Pictures'', href = 7\<rparr>"

definition readme_item :: EntryItem where
  "readme_item = \<lparr>name = ''readme.md'', kind = kind_file, handle = child kind_file ''readme.md'' 5,
     size_opt = Some 2, lastModified = Some 0, type_opt = Some ''text/markdown''\<rparr>"

definition readme_file :: File where
  "readme_file = \<lparr>file_name = ''readme.md'', file_bytes = [35, 33], file_lastModified = 0,
     file_type = ''text/markdown''\<rparr>"

definition home_session :: session where
  "home_session =
     \<lparr> currentView = home,
       storedDirectories = [\<lparr>dir_id = ''d1'', dir_name = ''Docs''\<rparr>, \<lparr>dir_id = ''d2'', dir_name = ''Music''\<rparr>],
       currentPathDirectories = [],
       fileList = [],
       loading = False,
       uploading = False,
       uploadProgress = Map.empty,
       uploadQueue = [],
       handleStore = [''d1'' \<mapsto> docs, ''d2'' \<mapsto> music] \<rparr>"

definition browsing_session :: session where
  "browsing_session = home_session
     \<lparr> currentView := directory,
       currentPathDirectories := [\<lparr>frame_name = ''Docs'', frame_handle = docs\<rparr>],
       fileList := [readme_item] \<rparr>"

definition locked :: error where
  "locked = Error ''NoModificationAllowedError'' ''the file is locked''"

definition stale_session :: session where
  "stale_session = home_session\<lparr>handleStore := [''d2'' \<mapsto> music]\<rparr>"

definition transaction_aborted :: error where
  "transaction_aborted = Error ''AbortError'' ''the transaction was aborted''"

definition not_allowed :: error where
  "not_allowed = Error ''NotAllowedError'' ''permission was not granted''"

definition denying_host :: host where
  "denying_host = quiet_host\<lparr>queryPermission := (\<lambda>_ _ _. Inr denied)\<rparr>"

definition faulty_store_host :: host where
  "faulty_store_host = denying_host
     \<lparr>idbFault := (\<lambda>_ e. case e of IdbDel k \<Rightarrow> Some transaction_aborted | _ \<Rightarrow> None)\<rparr>"

definition picking_host :: host where
  "picking_host = quiet_host
     \<lparr>showDirectoryPicker := (\<lambda>_. Inr pictures),
      isSameEntry_host := (\<lambda>_ a b. if href b = 0 then Inl not_allowed else Inr (href a = href b))\<rparr>"

definition drafts_host :: host where
  "drafts_host = quiet_host\<lparr>createFolderResult := (\<lambda>_ _. Inr (Some ''Drafts''))\<rparr>"

text \<open>A session two levels deep, a host on which the user confirms the deletion, and
  Handle Stores that fault on saving only, and on every call but the first.\<close>

definition drafts :: FileSystemHandle where
  "drafts = \<lparr>hkind = kind_directory, hname = ''Drafts'', href = 8\<rparr>"

definition nested_session :: session where
  "nested_session = browsing_session
     \<lparr>currentPathDirectories :=
        [\<lparr>frame_name = ''Docs'', frame_handle = docs\<rparr>, \<lparr>frame_name = ''Drafts'', frame_handle = drafts\<rparr>]\<rparr>"

definition confirming_host :: host where
  "confirming_host = quiet_host\<lparr>deleteConfirmResult := (\<lambda>_ _. Inr True)\<rparr>"



section \<open>The write loop\<close>

abbreviation chunkAt :: "File \<Rightarrow> nat \<Rightarrow> byte list" where
  "chunkAt f offset \<equiv> slice f offset (offset + chunkSize)"

abbreviation nextOffset :: "File \<Rightarrow> nat \<Rightarrow> nat" where
  "nextOffset f offset \<equiv> offset + length (chunkAt f offset)"

abbreviation progressAt :: "File \<Rightarrow> nat \<Rightarrow> rat" where
  "progressAt f offset \<equiv> of_nat (nextOffset f offset) / of_nat (file_size f)"

lemma writeChunks_done:
  "\<not> offset < file_size f \<Longrightarrow> writeChunks H w f cb offset s hist = (Inr (), s, [])"
  by (simp add: writeChunks.simps)

lemma writeChunks_write_fail:
  "offset < file_size f \<Longrightarrow> write_host H hist w (chunkAt f offset) = Inl e \<Longrightarrow>
   writeChunks H w f cb offset s hist = (Inl e, s, [Write w (chunkAt f offset)])"
  by (subst writeChunks.simps) simp

lemma writeChunks_callback_fail:
  "offset < file_size f \<Longrightarrow> write_host H hist w (chunkAt f offset) = Inr u \<Longrightarrow>
   cb (progressAt f offset) s = (Inl e, s1) \<Longrightarrow>
   writeChunks H w f cb offset s hist =
     (Inl e, s1, [Write w (chunkAt f offset), OnProgress (progressAt f offset)])"
  by (subst writeChunks.simps) (simp add: Let_def)

lemma writeChunks_continue:
  "offset < file_size f \<Longrightarrow> write_host H hist w (chunkAt f offset) = Inr u \<Longrightarrow>
   cb (progressAt f offset) s = (Inr u', s1) \<Longrightarrow>
   writeChunks H w f cb offset s hist =
     (case writeChunks H w f cb (nextOffset f offset) s1
             (hist @ [Write w (chunkAt f offset), OnProgress (progressAt f offset)]) of
        (r, s'', evs) \<Rightarrow>
          (r, s'', Write w (chunkAt f offset) # OnProgress (progressAt f offset) # evs))"
  by (subst writeChunks.simps) (simp add: Let_def)

text \<open>The ways a run of the loop from \<open>offset\<close> can go.\<close>

lemma writeChunks_cases:
  obtains
    (finished) "\<not> offset < file_size f" "writeChunks H w f cb offset s hist = (Inr (), s, [])"
  | (write_fail) e where "offset < file_size f" "write_host H hist w (chunkAt f offset) = Inl e"
      "writeChunks H w f cb offset s hist = (Inl e, s, [Write w (chunkAt f offset)])"
  | (callback_fail) e s1 where "offset < file_size f"
      "\<not> isl (write_host H hist w (chunkAt f offset))"
      "cb (progressAt f offset) s = (Inl e, s1)"
      "writeChunks H w f cb offset s hist =
         (Inl e, s1, [Write w (chunkAt f offset), OnProgress (progressAt f offset)])"
  | (continue) r s1 s2 evs where "offset < file_size f"
      "\<not> isl (write_host H hist w (chunkAt f offset))"
      "cb (progressAt f offset) s = (Inr (), s1)"
      "writeChunks H w f cb (nextOffset f offset) s1
         (hist @ [Write w (chunkAt f offset), OnProgress (progressAt f offset)]) = (r, s2, evs)"
      "writeChunks H w f cb offset s hist =
         (r, s2, Write w (chunkAt f offset) # OnProgress (progressAt f offset) # evs)"
proof (cases "offset < file_size f")
  case False
  then show ?thesis by (intro finished) (simp_all add: writeChunks_done)
next
  case True
  show ?thesis
  proof (cases "write_host H hist w (chunkAt f offset)")
    case (Inl e)
    with True show ?thesis by (intro write_fail [of e]) (simp_all add: writeChunks_write_fail)
  next
    case (Inr u)
    obtain c s1 where cb: "cb (progressAt f offset) s = (c, s1)"
      by (cases "cb (progressAt f offset) s")
    show ?thesis
    proof (cases c)
      case (Inl e)
      with True Inr cb show ?thesis
        using callback_fail [of e s1] writeChunks_callback_fail [of offset f H hist w u cb s e s1]
        by simp
    next
      case r: (Inr u')
      obtain r s2 evs where rec: "writeChunks H w f cb (nextOffset f offset) s1
         (hist @ [Write w (chunkAt f offset), OnProgress (progressAt f offset)]) = (r, s2, evs)"
        using prod_cases3 by blast
      with True Inr cb r show ?thesis
        using continue [of s1 r s2 evs] writeChunks_continue [of offset f H hist w u cb s u' s1]
        by simp
    qed
  qed
qed

lemma written_simps [simp]:
  "written [] = []"
  "written (Write h c # evs) = c @ written evs"
  "written (OnProgress p # evs) = written evs"
  by (simp_all add: written_def)

lemma chunk_append_rest:
  assumes "offset < file_size f"
  shows "chunkAt f offset @ drop (nextOffset f offset) (file_bytes f) = drop offset (file_bytes f)"
proof -
  have "drop (nextOffset f offset) (file_bytes f) = drop (length (chunkAt f offset)) (drop offset (file_bytes f))"
    by (simp add: add.commute)
  moreover have "chunkAt f offset = take (length (chunkAt f offset)) (drop offset (file_bytes f))"
    using assms by (simp add: slice_chunk min_def)
  ultimately show ?thesis
    by (metis append_take_drop_id)
qed

lemma progressAt_bounds:
  assumes "offset < file_size f"
  shows "of_nat offset / of_nat (file_size f) < progressAt f offset" and "progressAt f offset \<le> 1"
    and "nextOffset f offset \<le> file_size f"
    and "\<not> nextOffset f offset < file_size f \<Longrightarrow> progressAt f offset = 1"
    and "nextOffset f offset < file_size f \<Longrightarrow> length (chunkAt f offset) = chunkSize"
    and "0 < length (chunkAt f offset)" and "length (chunkAt f offset) \<le> chunkSize"
proof -
  have len: "length (chunkAt f offset) = min chunkSize (file_size f - offset)"
    using assms by (rule length_slice_chunk)
  show "0 < length (chunkAt f offset)"
    using assms chunkSize_pos by (simp add: len)
  then show "of_nat offset / of_nat (file_size f) < progressAt f offset"
    using assms by (intro divide_strict_right_mono) simp_all
  show le: "nextOffset f offset \<le> file_size f"
    using assms by (simp add: len)
  then show "progressAt f offset \<le> 1"
    using assms by (simp add: divide_le_eq_1)
  show "progressAt f offset = 1" if "\<not> nextOffset f offset < file_size f"
  proof -
    from that le have "nextOffset f offset = file_size f" by simp
    with assms show ?thesis by simp
  qed
  show "length (chunkAt f offset) = chunkSize" if "nextOffset f offset < file_size f"
    using that by (simp add: len min_def split: if_splits)
  show "length (chunkAt f offset) \<le> chunkSize"
    by (simp add: len)
qed


lemma writeChunks_success:
  assumes "writeChunks H w f cb offset s hist = (Inr (), s', evs)" and "offset \<le> file_size f"
  shows "written evs = drop offset (file_bytes f)
    \<and> alternating w evs
    \<and> all_responded H hist evs
    \<and> (\<forall>c\<in>set (chunks evs). 0 < length c \<and> length c \<le> chunkSize)
    \<and> (\<forall>c\<in>set (butlast (chunks evs)). length c = chunkSize)
    \<and> (\<forall>p\<in>set (progressValues evs). of_nat offset / of_nat (file_size f) < p \<and> p \<le> 1)
    \<and> sorted (progressValues evs)
    \<and> (offset < file_size f \<longrightarrow> progressValues evs \<noteq> [] \<and> last (progressValues evs) = 1)
    \<and> length (progressValues evs) = length (chunks evs)"
  using assms
proof (induction H w f cb offset s hist arbitrary: s' evs rule: writeChunks.induct)
  case (1 H w f cb offset s hist)
  show ?case
  proof (cases rule: writeChunks_cases [of offset f H w cb s hist])
    case finished
    with "1.prems" show ?thesis
      by (simp add: file_size_def)
  next
    case (write_fail e)
    with "1.prems" show ?thesis by simp
  next
    case (callback_fail e s1)
    with "1.prems" show ?thesis by simp
  next
    case (continue r s1 s2 evs1)
    let ?c = "chunkAt f offset" and ?p = "progressAt f offset" and ?o = "nextOffset f offset"
    from continue(2) obtain u where w: "write_host H hist w ?c = Inr u"
      by (cases "write_host H hist w ?c") auto
    from continue(5) "1.prems"(1) have e: "evs = Write w ?c # OnProgress ?p # evs1"
      and r: "r = Inr ()" and s2: "s2 = s'"
      by simp_all
    note b = progressAt_bounds [OF continue(1)]
    have rec: "writeChunks H w f cb ?o s1 (hist @ [Write w ?c, OnProgress ?p]) = (Inr (), s', evs1)"
      using continue(4) r s2 by simp
    note IH = "1.IH" [OF continue(1) refl w refl refl continue(3) [symmetric] refl rec b(3)]
    from IH have i1: "written evs1 = drop ?o (file_bytes f)" by (rule conjunct1)
    from IH have i2: "alternating w evs1" by simp
    from IH have i3: "all_responded H (hist @ [Write w ?c, OnProgress ?p]) evs1" by simp
    from IH have i4: "\<forall>c\<in>set (chunks evs1). 0 < length c \<and> length c \<le> chunkSize" by simp
    from IH have i5: "\<forall>c\<in>set (butlast (chunks evs1)). length c = chunkSize" by simp
    from IH have i6: "\<forall>p\<in>set (progressValues evs1). of_nat ?o / of_nat (file_size f) < p \<and> p \<le> 1" by simp
    from IH have i7: "sorted (progressValues evs1)" by simp
    from IH have i8: "?o < file_size f \<longrightarrow> progressValues evs1 \<noteq> [] \<and> last (progressValues evs1) = 1" by simp
    from IH have i9: "length (progressValues evs1) = length (chunks evs1)" by simp
    have stop: "evs1 = []" if "\<not> ?o < file_size f"
      using that rec by (simp add: writeChunks_done)
    have c1: "written evs = drop offset (file_bytes f)"
      using i1 chunk_append_rest [OF continue(1)] by (simp add: e)
    have c2: "alternating w evs"
      using i2 by (simp add: e)
    have c3: "all_responded H hist evs"
      using i3 w by (simp add: e)
    have c4: "\<forall>c\<in>set (chunks evs). 0 < length c \<and> length c \<le> chunkSize"
      using i4 b(6,7) by (simp add: e)
    have c5: "\<forall>c\<in>set (butlast (chunks evs)). length c = chunkSize"
    proof (cases "?o < file_size f")
      case True
      with i5 b(5) show ?thesis by (simp add: e)
    next
      case False
      then show ?thesis by (simp add: e stop)
    qed
    have c6: "\<forall>p\<in>set (progressValues evs). of_nat offset / of_nat (file_size f) < p \<and> p \<le> 1"
    proof
      fix p assume "p \<in> set (progressValues evs)"
      then consider "p = ?p" | "p \<in> set (progressValues evs1)" by (auto simp: e)
      then show "of_nat offset / of_nat (file_size f) < p \<and> p \<le> 1"
      proof cases
        case 1 with b(1,2) show ?thesis by simp
      next
        case 2
        with i6 have "?p < p" and "p \<le> 1" by simp_all
        with b(1) show ?thesis by simp
      qed
    qed
    have c7: "sorted (progressValues evs)"
      using i6 i7 by (auto simp: e intro: less_imp_le)
    have c8: "progressValues evs \<noteq> [] \<and> last (progressValues evs) = 1"
    proof (cases "?o < file_size f")
      case True
      with i8 show ?thesis by (simp add: e)
    next
      case False
      with b(4) show ?thesis by (simp add: e stop)
    qed
    have c9: "length (progressValues evs) = length (chunks evs)"
      using i9 by (simp add: e)
    from c1 c2 c3 c4 c5 c6 c7 c8 c9 show ?thesis by blast
  qed
qed


lemma all_responded_append:
  "all_responded H hist (xs @ ys) = (all_responded H hist xs \<and> all_responded H (hist @ xs) ys)"
  by (induction xs arbitrary: hist) simp_all

lemma writeChunks_failure:
  assumes "writeChunks H w f cb offset s hist = (Inl e, s', evs)"
  shows "\<exists>pre x. evs = pre @ [x] \<and> all_responded H hist pre
           \<and> (\<not> responded H (hist @ pre) x \<or> (\<exists>p st. x = OnProgress p \<and> isl (fst (cb p st))))"
  using assms
proof (induction H w f cb offset s hist arbitrary: s' evs rule: writeChunks.induct)
  case (1 H w f cb offset s hist)
  show ?case
  proof (cases rule: writeChunks_cases [of offset f H w cb s hist])
    case finished
    with "1.prems" show ?thesis by simp
  next
    case (write_fail e')
    with "1.prems" have "evs = [] @ [Write w (chunkAt f offset)]"
      and "\<not> responded H (hist @ []) (Write w (chunkAt f offset))"
      by simp_all
    then show ?thesis
      by (metis all_responded.simps(1))
  next
    case (callback_fail e' s1)
    with "1.prems" have "evs = [Write w (chunkAt f offset)] @ [OnProgress (progressAt f offset)]"
      and "all_responded H hist [Write w (chunkAt f offset)]"
      and "isl (fst (cb (progressAt f offset) s))"
      by simp_all
    then show ?thesis by blast
  next
    case (continue r s1 s2 evs1)
    let ?c = "chunkAt f offset" and ?p = "progressAt f offset" and ?o = "nextOffset f offset"
    from continue(2) obtain u where w: "write_host H hist w ?c = Inr u"
      by (cases "write_host H hist w ?c") auto
    from continue(5) "1.prems"(1) have e: "evs = Write w ?c # OnProgress ?p # evs1"
      and r: "r = Inl e" and s2: "s2 = s'"
      by simp_all
    have rec: "writeChunks H w f cb ?o s1 (hist @ [Write w ?c, OnProgress ?p]) = (Inl e, s', evs1)"
      using continue(4) r s2 by simp
    from "1.IH" [OF continue(1) refl w refl refl continue(3) [symmetric] refl rec]
    obtain pre x where p: "evs1 = pre @ [x]"
      and a: "all_responded H (hist @ [Write w ?c, OnProgress ?p]) pre"
      and x: "\<not> responded H ((hist @ [Write w ?c, OnProgress ?p]) @ pre) x \<or> (\<exists>p st. x = OnProgress p \<and> isl (fst (cb p st)))"
      by blast
    have "evs = (Write w ?c # OnProgress ?p # pre) @ [x]"
      by (simp add: e p)
    moreover have "all_responded H hist (Write w ?c # OnProgress ?p # pre)"
      using a w by simp
    moreover have "\<not> responded H (hist @ (Write w ?c # OnProgress ?p # pre)) x \<or> (\<exists>p st. x = OnProgress p \<and> isl (fst (cb p st)))"
      using x by simp
    ultimately show ?thesis by blast
  qed
qed

lemma writeFile_returns:
  "\<exists>b s' evs. writeFile H h f cb s hist = (Inr b, s', evs)"
  by (auto simp: writeFile_def split: sum.splits prod.splits)

lemma writeFile_True:
  assumes "writeFile H h f cb s hist = (Inr True, s', evs)"
  obtains evs1 where "evs = CreateWritable h # evs1 @ [Close h]"
    and "writeChunks H h f cb 0 s (hist @ [CreateWritable h]) = (Inr (), s', evs1)"
    and "\<not> isl (createWritable H hist h)"
    and "\<not> isl (close_host H (hist @ CreateWritable h # evs1) h)"
  using assms by (auto simp: writeFile_def split: sum.splits prod.splits)

lemma writeFile_False:
  assumes "writeFile H h f cb s hist = (Inr False, s', evs)"
  shows "\<exists>pre x. evs = pre @ [x, ConsoleError] \<and> all_responded H hist pre
           \<and> (\<not> responded H (hist @ pre) x \<or> (\<exists>p st. x = OnProgress p \<and> isl (fst (cb p st))))"
proof (cases "createWritable H hist h")
  case (Inl e)
  with assms have "evs = [] @ [CreateWritable h, ConsoleError]"
    and "\<not> responded H (hist @ []) (CreateWritable h)"
    by (simp_all add: writeFile_def)
  then show ?thesis by (metis all_responded.simps(1))
next
  case cw: (Inr u)
  obtain r s1 evs1 where wc: "writeChunks H h f cb 0 s (hist @ [CreateWritable h]) = (r, s1, evs1)"
    using prod_cases3 by blast
  show ?thesis
  proof (cases r)
    case (Inl e)
    from writeChunks_failure [OF wc [unfolded Inl]]
    obtain pre x where p: "evs1 = pre @ [x]"
      and a: "all_responded H (hist @ [CreateWritable h]) pre"
      and x: "\<not> responded H ((hist @ [CreateWritable h]) @ pre) x \<or> (\<exists>p st. x = OnProgress p \<and> isl (fst (cb p st)))"
      by blast
    from assms cw wc Inl have "evs = (CreateWritable h # pre) @ [x, ConsoleError]"
      by (simp add: writeFile_def p)
    moreover have "all_responded H hist (CreateWritable h # pre)"
      using a cw by simp
    moreover have "\<not> responded H (hist @ (CreateWritable h # pre)) x \<or> (\<exists>p st. x = OnProgress p \<and> isl (fst (cb p st)))"
      using x by simp
    ultimately show ?thesis by blast
  next
    case (Inr u')
    have a: "all_responded H (hist @ [CreateWritable h]) evs1"
      using writeChunks_success [of H h f cb 0 s "hist @ [CreateWritable h]" s1 evs1] wc Inr
      by simp
    from assms cw wc Inr have cl: "isl (close_host H (hist @ CreateWritable h # evs1) h)"
      and "evs = (CreateWritable h # evs1) @ [Close h, ConsoleError]"
      by (auto simp: writeFile_def split: sum.splits)
    moreover have "all_responded H hist (CreateWritable h # evs1)"
      using a cw by simp
    moreover have "\<not> responded H (hist @ (CreateWritable h # evs1)) (Close h)"
      using cl by simp
    ultimately show ?thesis by blast
  qed
qed


lemma chunks_append: "chunks (xs @ ys) = chunks xs @ chunks ys"
  by (induction xs rule: chunks.induct) simp_all


lemma written_append: "written (xs @ ys) = written xs @ written ys"
  by (simp add: written_def chunks_append)

lemma all_responded_snoc_ConsoleError:
  "all_responded H hist (pre @ [x, ConsoleError]) = (all_responded H hist pre \<and> responded H (hist @ pre) x)"
  by (simp add: all_responded_append)

section \<open>The Permission Gate\<close>

text \<open>
  Claim C1. Whatever the handle and the mode, \<open>requestDirectoryPermission\<close> returns
  \<open>true\<close> when the queried state is \<open>granted\<close> and issues no request; when the state is
  \<open>prompt\<close> it issues exactly one request and returns whether its outcome is \<open>granted\<close>;
  when the state is \<open>denied\<close> it returns \<open>false\<close> and issues no request; and when
  the query or the request throws it returns \<open>false\<close>.
\<close>

theorem requestDirectoryPermission_gate:
  "(queryPermission H hist h mode = Inr granted \<longrightarrow>
      requestDirectoryPermission H h mode hist = (True, [QueryPermission h mode]))
   \<and> (queryPermission H hist h mode = Inr prompt \<longrightarrow>
        (\<forall>outcome. requestPermission H (hist @ [QueryPermission h mode]) h mode = Inr outcome \<longrightarrow>
           requestDirectoryPermission H h mode hist =
             (outcome = granted, [QueryPermission h mode, RequestPermission h mode])))
   \<and> (queryPermission H hist h mode = Inr denied \<longrightarrow>
        requestDirectoryPermission H h mode hist = (False, [QueryPermission h mode]))
   \<and> ((\<exists>e. queryPermission H hist h mode = Inl e) \<longrightarrow>
        fst (requestDirectoryPermission H h mode hist) = False
        \<and> requests (snd (requestDirectoryPermission H h mode hist)) = [])
   \<and> (queryPermission H hist h mode = Inr prompt \<longrightarrow>
        (\<exists>e. requestPermission H (hist @ [QueryPermission h mode]) h mode = Inl e) \<longrightarrow>
        fst (requestDirectoryPermission H h mode hist) = False
        \<and> length (requests (snd (requestDirectoryPermission H h mode hist))) = 1)"
  by (auto simp: requestDirectoryPermission_def requests_def)

theorem requestDirectoryPermission_gate_witness:
  "requestDirectoryPermission quiet_host docs readwrite [] = (True, [QueryPermission docs readwrite])
   \<and> requestDirectoryPermission
        (quiet_host\<lparr>queryPermission := (\<lambda>_ _ _. Inr prompt), requestPermission := (\<lambda>_ _ _. Inr denied)\<rparr>)
        docs readwrite [] = (False, [QueryPermission docs readwrite, RequestPermission docs readwrite])
   \<and> requestDirectoryPermission (quiet_host\<lparr>queryPermission := (\<lambda>_ _ _. Inr denied)\<rparr>) docs read []
       = (False, [QueryPermission docs read])
   \<and> requestDirectoryPermission
        (quiet_host\<lparr>queryPermission := (\<lambda>_ _ _. Inl (Error ''InvalidStateError'' ''gone''))\<rparr>)
        docs readwrite [] = (False, [QueryPermission docs readwrite, ConsoleError])
   \<and> requestDirectoryPermission
        (quiet_host\<lparr>queryPermission := (\<lambda>_ _ _. Inr prompt),
           requestPermission := (\<lambda>_ _ _. Inl (Error ''SecurityError'' ''no user activation''))\<rparr>)
        docs readwrite []
       = (False, [QueryPermission docs readwrite, RequestPermission docs readwrite, ConsoleError])"
  using requestDirectoryPermission_gate [of quiet_host "[]" docs readwrite]
    requestDirectoryPermission_gate
      [of "quiet_host\<lparr>queryPermission := (\<lambda>_ _ _. Inr prompt), requestPermission := (\<lambda>_ _ _. Inr denied)\<rparr>"
          "[]" docs readwrite]
    requestDirectoryPermission_gate [of "quiet_host\<lparr>queryPermission := (\<lambda>_ _ _. Inr denied)\<rparr>" "[]" docs read]
    requestDirectoryPermission_gate
      [of "quiet_host\<lparr>queryPermission := (\<lambda>_ _ _. Inl (Error ''InvalidStateError'' ''gone''))\<rparr>"
          "[]" docs readwrite]
    requestDirectoryPermission_gate
      [of "quiet_host\<lparr>queryPermission := (\<lambda>_ _ _. Inr prompt),
             requestPermission := (\<lambda>_ _ _. Inl (Error ''SecurityError'' ''no user activation''))\<rparr>"
          "[]" docs readwrite]
  by (simp add: quiet_host_def requestDirectoryPermission_def)

section \<open>Writing a file\<close>

text \<open>
  Claim C10. \<open>writeFile\<close> never rejects: whatever the host and the callback do, it
  resolves to a boolean. It resolves to \<open>true\<close> only when the stream was opened, every
  chunk written and the stream closed without an exception (and then the bytes written
  are the file's), and to \<open>false\<close> only when the last call it issued threw; with a
  callback that does not throw, the result is exactly whether every host call it issued
  returned.
\<close>

theorem writeFile_never_rejects:
  "(\<exists>b. fst (writeFile H h f cb s hist) = Inr b)
   \<and> (fst (writeFile H h f cb s hist) = Inr True \<longrightarrow>
        all_responded H hist (snd (snd (writeFile H h f cb s hist)))
        \<and> (\<exists>body. snd (snd (writeFile H h f cb s hist)) = CreateWritable h # body @ [Close h])
        \<and> written (snd (snd (writeFile H h f cb s hist))) = file_bytes f)
   \<and> (fst (writeFile H h f cb s hist) = Inr False \<longrightarrow>
        (\<exists>pre x. snd (snd (writeFile H h f cb s hist)) = pre @ [x, ConsoleError]
           \<and> all_responded H hist pre
           \<and> (\<not> responded H (hist @ pre) x \<or> (\<exists>p st. x = OnProgress p \<and> isl (fst (cb p st))))))
   \<and> ((\<forall>p st. \<not> isl (fst (cb p st))) \<longrightarrow>
        fst (writeFile H h f cb s hist) = Inr (all_responded H hist (snd (snd (writeFile H h f cb s hist)))))"
proof -
  obtain b s' evs where r: "writeFile H h f cb s hist = (Inr b, s', evs)"
    using writeFile_returns [of H h f cb s hist] by auto
  have t: "all_responded H hist evs \<and> (\<exists>body. evs = CreateWritable h # body @ [Close h])
      \<and> written evs = file_bytes f" if "b"
  proof -
    from r that obtain evs1 where e: "evs = CreateWritable h # evs1 @ [Close h]"
      and w: "writeChunks H h f cb 0 s (hist @ [CreateWritable h]) = (Inr (), s', evs1)"
      and o: "\<not> isl (createWritable H hist h)"
      and c: "\<not> isl (close_host H (hist @ CreateWritable h # evs1) h)"
      by (auto elim: writeFile_True)
    from writeChunks_success [OF w] have "written evs1 = file_bytes f"
      and "all_responded H (hist @ [CreateWritable h]) evs1"
      by simp_all
    with e o c show ?thesis
      by (simp add: all_responded_append written_def chunks_append)
  qed
  have f: "\<exists>pre x. evs = pre @ [x, ConsoleError] \<and> all_responded H hist pre
      \<and> (\<not> responded H (hist @ pre) x \<or> (\<exists>p st. x = OnProgress p \<and> isl (fst (cb p st))))" if "\<not> b"
    using writeFile_False [of H h f cb s hist s' evs] r that by simp
  have n: "b = all_responded H hist evs" if q: "\<forall>p st. \<not> isl (fst (cb p st))"
  proof (cases b)
    case True
    with t show ?thesis by simp
  next
    case False
    from f [OF False] q obtain pre x where "evs = pre @ [x, ConsoleError]"
      and "\<not> responded H (hist @ pre) x"
      by blast
    then have "\<not> all_responded H hist evs"
      by (simp add: all_responded_snoc_ConsoleError)
    with False show ?thesis by simp
  qed
  from t f n show ?thesis
    by (simp add: r)
qed

theorem writeFile_never_rejects_witness:
  "fst (writeFile quiet_host note_handle note_file count_calls 0 []) = Inr True
   \<and> all_responded quiet_host []
        (snd (snd (writeFile quiet_host note_handle note_file count_calls 0 [])))
   \<and> fst (writeFile (quiet_host\<lparr>write_host := (\<lambda>_ _ _. Inl disk_full)\<rparr>) note_handle note_file count_calls 0 [])
       = Inr False
   \<and> snd (snd (writeFile (quiet_host\<lparr>write_host := (\<lambda>_ _ _. Inl disk_full)\<rparr>) note_handle note_file count_calls 0 []))
       = [CreateWritable note_handle, Write note_handle [72, 105, 33], ConsoleError]"
  using writeFile_never_rejects [of quiet_host note_handle note_file count_calls 0 "[]"]
    writeFile_never_rejects
      [of "quiet_host\<lparr>write_host := (\<lambda>_ _ _. Inl disk_full)\<rparr>" note_handle note_file count_calls 0 "[]"]
  by (simp add: writeFile_def quiet_host_def writeChunks.simps note_file_def file_size_def slice_def
        chunkSize_def count_calls_def)




section \<open>The Listing Service\<close>

lemma codepoint_compare_antisym: "(codepoint_compare a b < 0) = (0 < codepoint_compare b a)"
  by (induction a b rule: codepoint_compare.induct) auto

lemma codepoint_compare_trans:
  "codepoint_compare a b \<le> 0 \<Longrightarrow> codepoint_compare b d \<le> 0 \<Longrightarrow> codepoint_compare a d \<le> 0"
proof (induction a b arbitrary: d rule: codepoint_compare.induct)
  case 1
  then show ?case by simp
next
  case (2 y ys)
  then show ?case by (cases d) simp_all
next
  case (3 x xs)
  then show ?case by simp
next
  case (4 x xs y ys)
  show ?case
  proof (cases d)
    case Nil
    with "4.prems" show ?thesis by simp
  next
    case (Cons z zs)
    show ?thesis
    proof (cases "(of_char x :: nat) < of_char y")
      case True
      with "4.prems"(2) Cons show ?thesis by (auto split: if_splits)
    next
      case nlt: False
      with "4.prems"(1) have xy: "(of_char x :: nat) = of_char y" and r1: "codepoint_compare xs ys \<le> 0"
        by (simp_all split: if_splits)
      show ?thesis
      proof (cases "(of_char y :: nat) < of_char z")
        case True
        with xy Cons show ?thesis by simp
      next
        case False
        with "4.prems"(2) Cons have yz: "(of_char y :: nat) = of_char z" and r2: "codepoint_compare ys zs \<le> 0"
          by (simp_all split: if_splits)
        from "4.IH" [OF nlt _ r1 r2] xy have "codepoint_compare xs zs \<le> 0" by simp
        with xy yz Cons show ?thesis by simp
      qed
    qed
  qed
qed

lemma consistent_codepoint_compare: "consistent_comparator codepoint_compare"
  unfolding consistent_comparator_def
  using codepoint_compare_antisym codepoint_compare_trans by blast

lemma mset_insert_sorted: "mset (insert_sorted c x ys) = add_mset x (mset ys)"
  by (induction ys) simp_all

lemma mset_array_sort: "mset (array_sort c xs) = mset xs"
  by (induction xs) (simp_all add: array_sort_def mset_insert_sorted)

lemma set_insert_sorted: "set (insert_sorted c x ys) = insert x (set ys)"
  by (induction ys) auto

lemma consistent_comparatorD:
  assumes "consistent_comparator c"
  shows "0 < c a b \<Longrightarrow> c b a \<le> 0" and "c a b \<le> 0 \<Longrightarrow> c b d \<le> 0 \<Longrightarrow> c a d \<le> 0"
proof -
  from assms have anti: "\<And>a b. (c a b < 0) = (0 < c b a)"
    and trans: "\<And>a b d. c a b \<le> 0 \<and> c b d \<le> 0 \<longrightarrow> c a d \<le> 0"
    unfolding consistent_comparator_def by blast+
  show "c b a \<le> 0" if "0 < c a b"
    using that anti [of b a] by simp
  show "c a d \<le> 0" if "c a b \<le> 0" "c b d \<le> 0"
    using that trans [of a b d] by simp
qed

lemma sorted_insert_sorted:
  assumes "consistent_comparator c" and "sorted_wrt (\<lambda>a b. c a b \<le> 0) ys"
  shows "sorted_wrt (\<lambda>a b. c a b \<le> 0) (insert_sorted c x ys)"
  using assms(2)
proof (induction ys)
  case Nil
  then show ?case by simp
next
  case (Cons y ys)
  show ?case
  proof (cases "c x y \<le> 0")
    case True
    have "c x z \<le> 0" if "z \<in> set ys" for z
      using Cons.prems that True consistent_comparatorD(2) [OF assms(1), of x y z] by simp
    with True Cons.prems show ?thesis by simp
  next
    case False
    then have "c y x \<le> 0"
      using consistent_comparatorD(1) [OF assms(1), of x y] by simp
    with False Cons show ?thesis
      by (simp add: set_insert_sorted)
  qed
qed

lemma sorted_array_sort:
  "consistent_comparator c \<Longrightarrow> sorted_wrt (\<lambda>a b. c a b \<le> 0) (array_sort c xs)"
  by (induction xs) (simp_all add: array_sort_def sorted_insert_sorted)

lemma consistent_compareEntryItems:
  assumes "consistent_comparator cmp"
  shows "consistent_comparator (compareEntryItems cmp)"
proof -
  from assms have anti: "\<And>a b. (cmp a b < 0) = (0 < cmp b a)"
    and trans: "\<And>a b d. cmp a b \<le> 0 \<and> cmp b d \<le> 0 \<longrightarrow> cmp a d \<le> 0"
    unfolding consistent_comparator_def by blast+
  have "(compareEntryItems cmp a b < 0) = (0 < compareEntryItems cmp b a)" for a b
    using anti [of "name a" "name b"]
    by (cases "kind a"; cases "kind b") (simp_all add: compareEntryItems_def)
  moreover have "compareEntryItems cmp a b \<le> 0 \<and> compareEntryItems cmp b d \<le> 0
      \<longrightarrow> compareEntryItems cmp a d \<le> 0" for a b d
    using trans [of "name a" "name b" "name d"]
    by (cases "kind a"; cases "kind b"; cases "kind d") (simp_all add: compareEntryItems_def)
  ultimately show ?thesis
    unfolding consistent_comparator_def by blast
qed

lemma listEntries_items:
  "listEntries H entries hist = (Inr items, evs) \<Longrightarrow>
   map handle items = entries \<and> map name items = map hname entries \<and> map kind items = map hkind entries"
proof (induction entries arbitrary: hist items evs)
  case Nil
  then show ?case by simp
next
  case (Cons entry rest)
  show ?case
  proof (cases "hkind entry = kind_file")
    case True
    with Cons.prems obtain f items' evs' where
      "listEntries H rest (hist @ [GetFile entry]) = (Inr items', evs')"
      and "items = \<lparr>name = hname entry, kind = hkind entry, handle = entry,
                          size_opt = Some (file_size f),
                          lastModified = Some (file_lastModified f),
                          type_opt = Some (file_type f)\<rparr> # items'"
      by (auto split: sum.splits prod.splits)
    with Cons.IH show ?thesis by simp
  next
    case False
    with Cons.prems obtain items' evs' where
      "listEntries H rest hist = (Inr items', evs')"
      and "items = \<lparr>name = hname entry, kind = hkind entry, handle = entry,
                     size_opt = None, lastModified = None, type_opt = None\<rparr> # items'"
      by (auto split: sum.splits prod.splits)
    with Cons.IH show ?thesis by simp
  qed
qed

lemma listDirectoryEntryItems_Inr:
  assumes "listDirectoryEntryItems H h hist = (Inr items, evs)"
  obtains entryItems evs' where
    "listEntries H (fst (values_host H hist h)) (hist @ [Values h]) = (Inr entryItems, evs')"
    and "items = array_sort (compareEntryItems (localeCompare H)) entryItems"
    and "snd (values_host H hist h) = None"
  using assms
  by (auto simp: listDirectoryEntryItems_def split: prod.splits sum.splits option.splits)


lemma compareEntryItems_le:
  assumes "compareEntryItems cmp a b \<le> 0"
  shows "\<not> (kind a = kind_file \<and> kind b = kind_directory)"
    and "kind a = kind b \<Longrightarrow> cmp (name a) (name b) \<le> 0"
  using assms by (auto simp: compareEntryItems_def split: if_splits)

lemma listEntries_history:
  assumes "\<forall>e\<in>set entries. \<forall>h1 h2. getFile H h1 e = getFile H h2 e"
  shows "listEntries H entries hist = listEntries H entries hist'"
  using assms
proof (induction entries arbitrary: hist hist')
  case Nil
  then show ?case by simp
next
  case (Cons entry rest)
  have g: "getFile H hist entry = getFile H hist' entry"
    using Cons.prems by simp
  have r: "listEntries H rest h1 = listEntries H rest h2" for h1 h2
    using Cons.IH [of h1 h2] Cons.prems by simp
  show ?case
    by (simp add: g r [of hist hist'] r [of "hist @ [GetFile entry]" "hist' @ [GetFile entry]"]
          cong: sum.case_cong)
qed

lemma array_sort_example:
  assumes c: "consistent_comparator cmp"
    and n: "map name xs = [''b.txt'', ''A.txt'', ''zdir'', ''adir'']"
    and k: "map kind xs = [kind_file, kind_file, kind_directory, kind_directory]"
    and d: "cmp ''adir'' ''zdir'' < 0" and f: "cmp ''A.txt'' ''b.txt'' < 0"
  shows "map name (array_sort (compareEntryItems cmp) xs) = [''adir'', ''zdir'', ''A.txt'', ''b.txt'']"
proof -
  from n obtain i1 i2 i3 i4 where xs: "xs = [i1, i2, i3, i4]"
    by (auto simp: map_eq_Cons_conv)
  from c have anti: "\<And>a b. (cmp a b < 0) = (0 < cmp b a)"
    unfolding consistent_comparator_def by blast
  from d f have d': "\<not> cmp ''zdir'' ''adir'' \<le> 0" and f': "\<not> cmp ''b.txt'' ''A.txt'' \<le> 0"
    using anti [of "''adir''" "''zdir''"] anti [of "''A.txt''" "''b.txt''"] by simp_all
  from n k xs have
    "name i1 = ''b.txt''" "name i2 = ''A.txt''" "name i3 = ''zdir''" "name i4 = ''adir''"
    "kind i1 = kind_file" "kind i2 = kind_file" "kind i3 = kind_directory" "kind i4 = kind_directory"
    by simp_all
  with d' f' show ?thesis
    by (simp add: xs array_sort_def compareEntryItems_def)
qed

text \<open>
  Claim C4. With the consistent comparator the host's \<open>localeCompare\<close> is, the list
  \<open>listDirectoryEntryItems\<close> returns has no file before a directory, and entries of the
  same kind stand in the order of \<open>localeCompare\<close> on their names; it holds exactly the
  children the host enumerated. Children enumerated as the files \<open>b.txt\<close>, \<open>A.txt\<close> and the
  directories \<open>zdir\<close>, \<open>adir\<close> come out as \<open>adir\<close>, \<open>zdir\<close>, \<open>A.txt\<close>, \<open>b.txt\<close> (for a
  comparator that puts \<open>adir\<close> before \<open>zdir\<close> and \<open>A.txt\<close> before \<open>b.txt\<close>, as a locale
  comparison does). A second call on which the host enumerates and describes the
  children as before returns the same list.
\<close>

theorem listDirectoryEntryItems_sorted:
  assumes "consistent_comparator (localeCompare H)"
    and "listDirectoryEntryItems H dir hist = (Inr items, evs)"
  shows "(\<forall>i j. i < j \<and> j < length items \<longrightarrow>
            \<not> (kind (items ! i) = kind_file \<and> kind (items ! j) = kind_directory))
    \<and> (\<forall>i j. i < j \<and> j < length items \<and> kind (items ! i) = kind (items ! j) \<longrightarrow>
            localeCompare H (name (items ! i)) (name (items ! j)) \<le> 0)
    \<and> mset (map handle items) = mset (fst (values_host H hist dir))
    \<and> (map hname (fst (values_host H hist dir)) = [''b.txt'', ''A.txt'', ''zdir'', ''adir'']
         \<and> map hkind (fst (values_host H hist dir)) = [kind_file, kind_file, kind_directory, kind_directory]
         \<and> localeCompare H ''adir'' ''zdir'' < 0 \<and> localeCompare H ''A.txt'' ''b.txt'' < 0 \<longrightarrow>
         map name items = [''adir'', ''zdir'', ''A.txt'', ''b.txt''])
    \<and> (\<forall>hist'. values_host H hist' dir = values_host H hist dir
           \<and> (\<forall>e\<in>set (fst (values_host H hist dir)). \<forall>h1 h2. getFile H h1 e = getFile H h2 e) \<longrightarrow>
           fst (listDirectoryEntryItems H dir hist') = Inr items)"
proof -
  let ?c = "compareEntryItems (localeCompare H)"
  let ?entries = "fst (values_host H hist dir)"
  from assms(2) obtain entryItems evs' where
    l: "listEntries H ?entries (hist @ [Values dir]) = (Inr entryItems, evs')"
    and i: "items = array_sort ?c entryItems"
    and t: "snd (values_host H hist dir) = None"
    by (rule listDirectoryEntryItems_Inr)
  note li = listEntries_items [OF l]
  have s: "sorted_wrt (\<lambda>a b. ?c a b \<le> 0) items"
    unfolding i using assms(1) by (intro sorted_array_sort consistent_compareEntryItems)
  have le: "?c (items ! i) (items ! j) \<le> 0" if "i < j" "j < length items" for i j
    using s that by (simp add: sorted_wrt_iff_nth_less)
  have a: "\<forall>i j. i < j \<and> j < length items \<longrightarrow>
            \<not> (kind (items ! i) = kind_file \<and> kind (items ! j) = kind_directory)"
    using le compareEntryItems_le(1) by blast
  have b: "\<forall>i j. i < j \<and> j < length items \<and> kind (items ! i) = kind (items ! j) \<longrightarrow>
            localeCompare H (name (items ! i)) (name (items ! j)) \<le> 0"
    using le compareEntryItems_le(2) by blast
  have "mset items = mset entryItems"
    by (simp add: i mset_array_sort)
  then have "mset (map handle items) = mset (map handle entryItems)"
    by (metis mset_map)
  with li have m: "mset (map handle items) = mset ?entries"
    by simp
  have x: "map name items = [''adir'', ''zdir'', ''A.txt'', ''b.txt'']"
    if "map hname ?entries = [''b.txt'', ''A.txt'', ''zdir'', ''adir'']"
      and "map hkind ?entries = [kind_file, kind_file, kind_directory, kind_directory]"
      and "localeCompare H ''adir'' ''zdir'' < 0" and "localeCompare H ''A.txt'' ''b.txt'' < 0"
    unfolding i using assms(1) that li by (intro array_sort_example) simp_all
  have d: "fst (listDirectoryEntryItems H dir hist') = Inr items"
    if v: "values_host H hist' dir = values_host H hist dir"
      and g: "\<forall>e\<in>set ?entries. \<forall>h1 h2. getFile H h1 e = getFile H h2 e" for hist'
  proof -
    have "listEntries H ?entries (hist' @ [Values dir]) = (Inr entryItems, evs')"
      using listEntries_history [OF g, of "hist' @ [Values dir]" "hist @ [Values dir]"] l by simp
    with v t show ?thesis
      by (cases "values_host H hist dir") (simp add: listDirectoryEntryItems_def i)
  qed
  from x have x': "map hname ?entries = [''b.txt'', ''A.txt'', ''zdir'', ''adir'']
         \<and> map hkind ?entries = [kind_file, kind_file, kind_directory, kind_directory]
         \<and> localeCompare H ''adir'' ''zdir'' < 0 \<and> localeCompare H ''A.txt'' ''b.txt'' < 0 \<longrightarrow>
         map name items = [''adir'', ''zdir'', ''A.txt'', ''b.txt'']"
    by (intro impI) (elim conjE)
  from d have d': "\<forall>hist'. values_host H hist' dir = values_host H hist dir
           \<and> (\<forall>e\<in>set ?entries. \<forall>h1 h2. getFile H h1 e = getFile H h2 e) \<longrightarrow>
           fst (listDirectoryEntryItems H dir hist') = Inr items"
    by (intro allI impI) (elim conjE)
  show ?thesis
    by (rule conjI [OF a conjI [OF b conjI [OF m conjI [OF x' d']]]])
qed

lemma listing_example:
  "listDirectoryEntryItems listing_host docs [] =
     (Inr [\<lparr>name = ''adir'', kind = kind_directory, handle = child kind_directory ''adir'' 4,
              size_opt = None, lastModified = None, type_opt = None\<rparr>,
           \<lparr>name = ''zdir'', kind = kind_directory, handle = child kind_directory ''zdir'' 3,
              size_opt = None, lastModified = None, type_opt = None\<rparr>,
           \<lparr>name = ''A.txt'', kind = kind_file, handle = child kind_file ''A.txt'' 2,
              size_opt = Some 0, lastModified = Some 0, type_opt = Some []\<rparr>,
           \<lparr>name = ''b.txt'', kind = kind_file, handle = child kind_file ''b.txt'' 1,
              size_opt = Some 0, lastModified = Some 0, type_opt = Some []\<rparr>],
      [Values docs, GetFile (child kind_file ''b.txt'' 1), GetFile (child kind_file ''A.txt'' 2)])"
  by (simp add: listDirectoryEntryItems_def listing_host_def quiet_host_def child_def array_sort_def
        compareEntryItems_def file_size_def)

theorem listDirectoryEntryItems_sorted_witness:
  "consistent_comparator (localeCompare listing_host)
   \<and> map name (projr (fst (listDirectoryEntryItems listing_host docs []))) = [''adir'', ''zdir'', ''A.txt'', ''b.txt'']
   \<and> map kind (projr (fst (listDirectoryEntryItems listing_host docs [])))
       = [kind_directory, kind_directory, kind_file, kind_file]"
proof -
  have c: "consistent_comparator (localeCompare listing_host)"
    by (simp add: listing_host_def consistent_codepoint_compare)
  note t = listDirectoryEntryItems_sorted [OF c listing_example]
  from t listing_example c show ?thesis by simp
qed

lemma sorted_wrt_unique:
  assumes "sorted_wrt le xs" and "sorted_wrt le ys" and "mset xs = mset ys"
    and "\<forall>a\<in>set xs. \<forall>b\<in>set xs. le a b \<and> le b a \<longrightarrow> a = b"
  shows "xs = ys"
  using assms
proof (induction xs arbitrary: ys)
  case Nil
  then show ?case by simp
next
  case (Cons x xs)
  from Cons.prems(3) obtain y ys' where ys: "ys = y # ys'"
    by (cases ys) auto
  from Cons.prems(3) have s: "set (x # xs) = set ys"
    by (metis set_mset_mset)
  have "x = y"
  proof (rule ccontr)
    assume ne: "x \<noteq> y"
    with s ys have "x \<in> set ys'" and "y \<in> set xs" by auto
    with Cons.prems(1,2) ys have "le y x" and "le x y" by auto
    with Cons.prems(4) \<open>y \<in> set xs\<close> have "x = y" by auto
    with ne show False by simp
  qed
  moreover from this Cons.prems(3) ys have "mset xs = mset ys'" by simp
  moreover from Cons.prems(1,2) ys have "sorted_wrt le xs" "sorted_wrt le ys'" by simp_all
  moreover from Cons.prems(4) have "\<forall>a\<in>set xs. \<forall>b\<in>set xs. le a b \<and> le b a \<longrightarrow> a = b" by simp
  ultimately show ?case
    using Cons.IH [of ys'] ys by simp
qed

lemma compareEntryItems_tie:
  assumes "consistent_comparator cmp"
    and "compareEntryItems cmp a b \<le> 0" and "compareEntryItems cmp b a \<le> 0"
  shows "cmp (name a) (name b) = 0"
proof -
  from assms(1) have anti: "(cmp (name a) (name b) < 0) = (0 < cmp (name b) (name a))"
    unfolding consistent_comparator_def by blast
  from assms(2,3) have "kind a = kind b"
    by (cases "kind a"; cases "kind b") (simp_all add: compareEntryItems_def)
  with assms(2,3) have "cmp (name a) (name b) \<le> 0" "cmp (name b) (name a) \<le> 0"
    by (simp_all add: compareEntryItems_def)
  with anti show ?thesis by simp
qed

text \<open>The order of the listing does not depend on the order in which the host enumerates
  the children, when no two of them are tied under \<open>localeCompare\<close>.\<close>

lemma listDirectoryEntryItems_enumeration_order:
  assumes "consistent_comparator (localeCompare H)"
    and "listDirectoryEntryItems H dir hist = (Inr items, evs)"
    and "listDirectoryEntryItems H dir hist' = (Inr items', evs')"
    and "mset items = mset items'"
    and "\<forall>a\<in>set items. \<forall>b\<in>set items. localeCompare H (name a) (name b) = 0 \<longrightarrow> a = b"
  shows "items = items'"
proof -
  let ?le = "\<lambda>a b. compareEntryItems (localeCompare H) a b \<le> 0"
  have c: "consistent_comparator (compareEntryItems (localeCompare H))"
    using assms(1) by (rule consistent_compareEntryItems)
  from assms(2) obtain xs where "items = array_sort (compareEntryItems (localeCompare H)) xs"
    by (auto elim: listDirectoryEntryItems_Inr)
  then have s: "sorted_wrt ?le items"
    using sorted_array_sort [OF c] by simp
  from assms(3) obtain ys where "items' = array_sort (compareEntryItems (localeCompare H)) ys"
    by (auto elim: listDirectoryEntryItems_Inr)
  then have s': "sorted_wrt ?le items'"
    using sorted_array_sort [OF c] by simp
  have "\<forall>a\<in>set items. \<forall>b\<in>set items. ?le a b \<and> ?le b a \<longrightarrow> a = b"
    using assms(5) compareEntryItems_tie [OF assms(1)] by blast
  with s s' assms(4) show ?thesis
    by (rule sorted_wrt_unique)
qed

section \<open>The Handle Store\<close>

text \<open>
  Claim C9 fails on the code. \<open>removeDirectoryHandle\<close> returns the value of
  \<open>await get(id) && await del(id)\<close>: for an id that is present the entry is removed and
  the value is what \<open>del\<close> resolves to, \<open>undefined\<close>; for an id that is absent it is the
  \<open>undefined\<close> of \<open>get\<close>. It never returns \<open>true\<close>.
\<close>

theorem removeDirectoryHandle_returns_undefined:
  "removeDirectoryHandle quiet_host ''d1'' (Map.empty(''d1'' \<mapsto> docs)) []
     = (Inr JSUndefined, Map.empty, [IdbGet ''d1'', IdbDel ''d1''])
   \<and> removeDirectoryHandle quiet_host ''d1'' Map.empty [] = (Inr JSUndefined, Map.empty, [IdbGet ''d1''])
   \<and> fst (removeDirectoryHandle H id' st hist) \<noteq> Inr (JSBoolean True)"
proof -
  have "fst (removeDirectoryHandle H id' st hist) \<noteq> Inr (JSBoolean True)"
    by (cases "idbFault H hist (IdbGet id')"; cases "st id'";
        cases "idbFault H (hist @ [IdbGet id']) (IdbDel id')")
      (simp_all add: removeDirectoryHandle_def idb_get_def idb_del_def)
  then show ?thesis
    by (simp add: removeDirectoryHandle_def idb_get_def idb_del_def quiet_host_def)
qed

section \<open>Worked examples\<close>

text \<open>The definitions a concrete run unfolds.\<close>

lemmas eval_defs =
  handleFileUpload_def handleFileUpload_file_def createNewFile_def writeFile_def writeChunks.simps
  listDirectoryEntryItems_def requestDirectoryPermission_def array_sort_def
  quiet_host_def browsing_session_def home_session_def readme_item_def readme_file_def
  note_file_def note_handle_def docs_def child_def file_size_def slice_def chunkSize_def
  Let_def

lemmas eval_session_defs =
  enterDirectory_def enterDirectory_invalid_def enterDirectory_catch_def removeDirectory_def
  removeDirectoryHandle_def getDirectoryHandle_def idb_get_def idb_del_def idb_set_def
  addNewDirectory_def addNewDirectory_catch_def isSameEntry_def saveDirectoryHandle_def
  deleteItem_def createNewFolder_def createNewDirectory_def
  stale_session_def denying_host_def faulty_store_host_def picking_host_def drafts_host_def
  expired_toast_def enter_failed_toast_def transaction_aborted_def not_allowed_def
  music_def pictures_def

lemmas eval_nested_defs = nested_session_def confirming_host_def drafts_def


section \<open>The pre-flight of the mutations\<close>

lemma gate_no_mutation: "filter mutation (snd (requestDirectoryPermission H h mode hist)) = []"
  by (simp add: requestDirectoryPermission_def split: sum.splits)

lemma gate_quiet:
  "filter notification (snd (requestDirectoryPermission H h mode hist)) = []
   \<and> filter storing (snd (requestDirectoryPermission H h mode hist)) = []"
  by (simp add: requestDirectoryPermission_def split: sum.splits)

lemma gate_first: "\<exists>rest. snd (requestDirectoryPermission H h mode hist) = QueryPermission h mode # rest"
  by (simp add: requestDirectoryPermission_def split: sum.splits)

lemma handleFileUpload_empty:
  "currentPathDirectories s = [] \<Longrightarrow>
   handleFileUpload H files s hist =
     (Inr (), s, [ToastAdd Title_upload_failed Descr_select_a_directory_first error_color])"
  by (simp add: handleFileUpload_def)

lemma handleFileUpload_denied:
  "currentPathDirectories s \<noteq> [] \<Longrightarrow> \<not> fst (gate H s hist) \<Longrightarrow>
   handleFileUpload H files s hist =
     (Inr (), s, snd (gate H s hist) @
        [ToastAdd Title_insufficient_permission Descr_no_write_permission_choose_again error_color])"
  by (cases "currentPathDirectories s"; cases "gate H s hist")
     (simp_all add: handleFileUpload_def)

lemma listEntries_quiet:
  "filter mutation (snd (listEntries H entries hist)) = []
   \<and> filter notification (snd (listEntries H entries hist)) = []"
proof (induction entries arbitrary: hist)
  case Nil
  then show ?case by simp
next
  case (Cons entry rest)
  show ?case
  proof (cases "hkind entry = kind_file")
    case True
    obtain r evs where l: "listEntries H rest (hist @ [GetFile entry]) = (r, evs)"
      by (cases "listEntries H rest (hist @ [GetFile entry])")
    with Cons.IH [of "hist @ [GetFile entry]"] True show ?thesis
      by (cases "getFile H hist entry"; cases r) simp_all
  next
    case False
    obtain r evs where l: "listEntries H rest hist = (r, evs)"
      by (cases "listEntries H rest hist")
    with Cons.IH [of hist] False show ?thesis
      by (cases r) simp_all
  qed
qed

lemma listDirectoryEntryItems_quiet:
  "filter mutation (snd (listDirectoryEntryItems H h hist)) = []
   \<and> filter notification (snd (listDirectoryEntryItems H h hist)) = []"
proof -
  obtain entries thrown where v: "values_host H hist h = (entries, thrown)"
    by (cases "values_host H hist h")
  obtain r evs where l: "listEntries H entries (hist @ [Values h]) = (r, evs)"
    by (cases "listEntries H entries (hist @ [Values h])")
  from listEntries_quiet [of H entries "hist @ [Values h]"] v l show ?thesis
    by (cases r; cases thrown) (simp_all add: listDirectoryEntryItems_def)
qed

lemma handleFileUpload_granted:
  assumes "currentPathDirectories s \<noteq> []" and "fst (gate H s hist)"
  obtains progress rounds ev3 where
    "handleFileUpload_loop H (targetDirectory s) (fileList s) files (uploadProgress s)
        (hist @ snd (gate H s hist)) = (progress, rounds)"
    and "snd (snd (handleFileUpload H files s hist)) = snd (gate H s hist) @ concat rounds @ ev3"
    and "filter mutation ev3 = []" and "filter notification ev3 = []"
proof -
  obtain ev1 where g: "gate H s hist = (True, ev1)"
    using assms(2) by (cases "gate H s hist") simp
  obtain progress rounds where l:
    "handleFileUpload_loop H (targetDirectory s) (fileList s) files (uploadProgress s) (hist @ ev1)
       = (progress, rounds)"
    by (cases "handleFileUpload_loop H (targetDirectory s) (fileList s) files (uploadProgress s) (hist @ ev1)")
  obtain r ev3 where d: "listDirectoryEntryItems H (targetDirectory s) (hist @ ev1 @ concat rounds) = (r, ev3)"
    by (cases "listDirectoryEntryItems H (targetDirectory s) (hist @ ev1 @ concat rounds)")
  have "snd (snd (handleFileUpload H files s hist)) = ev1 @ concat rounds @ ev3"
    using assms(1) g l d
    by (cases "currentPathDirectories s"; cases r) (simp_all add: handleFileUpload_def)
  moreover have "filter mutation ev3 = []" and "filter notification ev3 = []"
    using listDirectoryEntryItems_quiet [of H "targetDirectory s" "hist @ ev1 @ concat rounds"] d
    by simp_all
  ultimately show ?thesis
    using that [of progress rounds ev3] l g by simp
qed

lemma deleteItem_empty:
  "currentPathDirectories s = [] \<Longrightarrow>
   deleteItem H item s hist =
     (s, [ToastAdd Title_delete_failed Descr_cannot_determine_current_directory error_color])"
  by (simp add: deleteItem_def)

lemma deleteItem_denied:
  "currentPathDirectories s \<noteq> [] \<Longrightarrow> \<not> fst (gate H s hist) \<Longrightarrow>
   deleteItem H item s hist =
     (s, snd (gate H s hist) @
        [ToastAdd Title_insufficient_permission Descr_no_write_permission_cannot_delete error_color])"
  by (cases "currentPathDirectories s"; cases "gate H s hist")
     (simp_all add: deleteItem_def)

lemma deleteItem_prefix:
  "currentPathDirectories s \<noteq> [] \<Longrightarrow>
   \<exists>rest. snd (deleteItem H item s hist) = snd (gate H s hist) @ rest"
  by (cases "currentPathDirectories s"; cases "gate H s hist")
     (auto simp: deleteItem_def Let_def split: sum.splits prod.splits)

lemma createNewFolder_empty:
  "currentPathDirectories s = [] \<Longrightarrow>
   createNewFolder H s hist =
     (s, [ToastAdd Title_create_failed Descr_select_a_directory_first error_color])"
  by (simp add: createNewFolder_def)

lemma createNewFolder_denied:
  "currentPathDirectories s \<noteq> [] \<Longrightarrow> \<not> fst (gate H s hist) \<Longrightarrow>
   createNewFolder H s hist =
     (s, snd (gate H s hist) @
        [ToastAdd Title_insufficient_permission Descr_no_write_permission_cannot_create_folder error_color])"
  by (cases "currentPathDirectories s"; cases "gate H s hist")
     (simp_all add: createNewFolder_def)

lemma createNewFolder_prefix:
  "currentPathDirectories s \<noteq> [] \<Longrightarrow>
   \<exists>rest. snd (createNewFolder H s hist) = snd (gate H s hist) @ rest"
  by (cases "currentPathDirectories s"; cases "gate H s hist")
     (auto simp: createNewFolder_def Let_def split: sum.splits prod.splits option.splits)

section \<open>Batch upload\<close>

lemma handleFileUpload_file_skip:
  "existingFile snapshot f = Some x \<Longrightarrow>
   handleFileUpload_file H target snapshot f progress hist =
     (progress(file_name f \<mapsto> - 1),
      [ToastAdd Title_file_exists (Descr_file_exists_upload_skipped (file_name f)) warning])"
  by (simp add: handleFileUpload_file_def)

lemma writeFile_callback_total:
  assumes "\<forall>p st. \<not> isl (fst (cb p st))"
    and "writeFile H h f cb s hist = (r, s', evs)"
  shows "r = Inr (all_responded H hist evs)"
proof -
  from writeFile_returns [of H h f cb s hist] assms(2) obtain b where b: "r = Inr b" by auto
  show ?thesis
  proof (cases b)
    case True
    with assms(2) b obtain body where "evs = CreateWritable h # body @ [Close h]"
      and "writeChunks H h f cb 0 s (hist @ [CreateWritable h]) = (Inr (), s', body)"
      and "\<not> isl (createWritable H hist h)"
      and "\<not> isl (close_host H (hist @ CreateWritable h # body) h)"
      by (auto elim: writeFile_True)
    moreover from this(2) have "all_responded H (hist @ [CreateWritable h]) body"
      using writeChunks_success [of H h f cb 0 s "hist @ [CreateWritable h]" s' body] by simp
    ultimately have "all_responded H hist evs"
      by (simp add: all_responded_append)
    with True b show ?thesis by simp
  next
    case False
    with assms(2) b have "writeFile H h f cb s hist = (Inr False, s', evs)" by simp
    from writeFile_False [OF this] assms(1) obtain pre x where "evs = pre @ [x, ConsoleError]"
      and "\<not> responded H (hist @ pre) x"
      by blast
    then have "\<not> all_responded H hist evs"
      by (simp add: all_responded_snoc_ConsoleError)
    with False b show ?thesis by simp
  qed
qed

lemma writeFile_written:
  assumes "writeFile H h f cb s hist = (Inr True, s', evs)"
  shows "written evs = file_bytes f"
proof -
  from assms obtain body where e: "evs = CreateWritable h # body @ [Close h]"
    and w: "writeChunks H h f cb 0 s (hist @ [CreateWritable h]) = (Inr (), s', body)"
    by (auto elim: writeFile_True)
  from writeChunks_success [OF w] have "written body = file_bytes f" by simp
  then show ?thesis
    by (simp add: e written_def chunks_append)
qed

lemma handleFileUpload_file_new:
  assumes "existingFile snapshot f = None"
  shows "\<exists>rest. snd (handleFileUpload_file H target snapshot f progress hist)
            = GetFileHandle target (file_name f) # rest"
    and "all_responded H hist (snd (handleFileUpload_file H target snapshot f progress hist)) \<Longrightarrow>
         written (snd (handleFileUpload_file H target snapshot f progress hist)) = file_bytes f"
proof -
  let ?cb = "\<lambda>p table. (Inr () :: error + unit, table(file_name f \<mapsto> math_round_percent H p))"
  let ?p0 = "progress(file_name f \<mapsto> 0)"
  let ?g = "GetFileHandle target (file_name f)"
  show "\<exists>rest. snd (handleFileUpload_file H target snapshot f progress hist) = ?g # rest"
    using assms
    by (auto simp: handleFileUpload_file_def createNewFile_def Let_def split: sum.splits prod.splits)
  show "written (snd (handleFileUpload_file H target snapshot f progress hist)) = file_bytes f"
    if ok: "all_responded H hist (snd (handleFileUpload_file H target snapshot f progress hist))"
  proof (cases "getFileHandle H hist target (file_name f)")
    case (Inl e)
    with assms ok show ?thesis
      by (simp add: handleFileUpload_file_def createNewFile_def Let_def)
  next
    case (Inr fileHandle)
    obtain r p1 ev2 where w: "writeFile H fileHandle f ?cb ?p0 (hist @ [?g]) = (r, p1, ev2)"
      using prod_cases3 by blast
    have r: "r = Inr (all_responded H (hist @ [?g]) ev2)"
      by (rule writeFile_callback_total [OF _ w]) simp
    have e: "\<exists>t. snd (handleFileUpload_file H target snapshot f progress hist) = ?g # ev2 @ [ToastAdd Title_upload_succeeded t success]"
      using assms Inr w r by (simp add: handleFileUpload_file_def createNewFile_def Let_def)
    with ok have "all_responded H (hist @ [?g]) ev2"
      by (auto simp: all_responded_append)
    with r w have "writeFile H fileHandle f ?cb ?p0 (hist @ [?g]) = (Inr True, p1, ev2)"
      by simp
    from writeFile_written [OF this] e show ?thesis
      by (auto simp: written_def chunks_append)
  qed
qed

lemma handleFileUpload_loop_rounds:
  "handleFileUpload_loop H target snapshot files progress hist = (progress', rounds) \<Longrightarrow>
   length rounds = length files
   \<and> (\<forall>i<length files. \<exists>table.
         rounds ! i = snd (handleFileUpload_file H target snapshot (files ! i) table
                             (hist @ concat (take i rounds))))"
proof (induction files arbitrary: progress hist progress' rounds)
  case Nil
  then show ?case by simp
next
  case (Cons f fs)
  obtain p1 evs where o: "handleFileUpload_file H target snapshot f progress hist = (p1, evs)"
    by (cases "handleFileUpload_file H target snapshot f progress hist")
  obtain p2 rs where l: "handleFileUpload_loop H target snapshot fs p1 (hist @ evs) = (p2, rs)"
    by (cases "handleFileUpload_loop H target snapshot fs p1 (hist @ evs)")
  from Cons.prems o l have r: "rounds = evs # rs" by simp
  note IH = Cons.IH [OF l]
  show ?case
  proof (intro conjI allI impI)
    show "length rounds = length (f # fs)"
      using IH r by simp
    fix i assume i: "i < length (f # fs)"
    show "\<exists>table. rounds ! i = snd (handleFileUpload_file H target snapshot ((f # fs) ! i) table
                             (hist @ concat (take i rounds)))"
    proof (cases i)
      case 0
      with o r show ?thesis by (intro exI [of _ progress]) simp
    next
      case (Suc j)
      with i IH obtain table where
        "rs ! j = snd (handleFileUpload_file H target snapshot (fs ! j) table
                         ((hist @ evs) @ concat (take j rs)))"
        by auto
      with Suc r show ?thesis by (intro exI [of _ table]) simp
    qed
  qed
qed

lemma existingFile_Some:
  "\<exists>item\<in>set snapshot. name item = file_name f \<and> kind item = kind_file \<Longrightarrow>
   \<exists>x. existingFile snapshot f = Some x"
  by (cases "existingFile snapshot f") (auto simp: find_None_iff)

lemma existingFile_None:
  "\<not> (\<exists>item\<in>set snapshot. name item = file_name f \<and> kind item = kind_file) \<Longrightarrow>
   existingFile snapshot f = None"
  by (auto simp: find_None_iff)

text \<open>
  Claim C2, as amended. In a batch upload that passed the pre-flight, the files are
  handled one at a time and in order. A file whose name is that of an entry of kind file
  in the displayed snapshot is skipped: the only call of its round is the notification
  that it was skipped, so no file handle is created and nothing is written. For any
  other file the round begins by asking the target for a file handle of that name
  (created when absent), and when none of the host calls of the round throws, the bytes
  handed to the stream are the bytes of the source.
\<close>

theorem handleFileUpload_conflict_policy:
  assumes "currentPathDirectories s \<noteq> []" and "fst (gate H s hist)"
  shows "\<exists>rounds ev3.
      snd (snd (handleFileUpload H files s hist)) = snd (gate H s hist) @ concat rounds @ ev3
      \<and> filter mutation ev3 = []
      \<and> length rounds = length files
      \<and> (\<forall>i<length files.
           ((\<exists>item\<in>set (fileList s). name item = file_name (files ! i) \<and> kind item = kind_file) \<longrightarrow>
              rounds ! i = [ToastAdd Title_file_exists
                              (Descr_file_exists_upload_skipped (file_name (files ! i))) warning])
           \<and> (\<not> (\<exists>item\<in>set (fileList s). name item = file_name (files ! i) \<and> kind item = kind_file) \<longrightarrow>
                (\<exists>rest. rounds ! i = GetFileHandle (targetDirectory s) (file_name (files ! i)) # rest)
                \<and> (all_responded H (hist @ snd (gate H s hist) @ concat (take i rounds)) (rounds ! i) \<longrightarrow>
                     written (rounds ! i) = file_bytes (files ! i))))"
proof -
  from handleFileUpload_granted [OF assms, of files] obtain progress rounds ev3 where
    l: "handleFileUpload_loop H (targetDirectory s) (fileList s) files (uploadProgress s)
          (hist @ snd (gate H s hist)) = (progress, rounds)"
    and e: "snd (snd (handleFileUpload H files s hist)) = snd (gate H s hist) @ concat rounds @ ev3"
    and m: "filter mutation ev3 = []"
    by metis
  note r = handleFileUpload_loop_rounds [OF l]
  have p: "((\<exists>item\<in>set (fileList s). name item = file_name (files ! i) \<and> kind item = kind_file) \<longrightarrow>
              rounds ! i = [ToastAdd Title_file_exists
                              (Descr_file_exists_upload_skipped (file_name (files ! i))) warning])
           \<and> (\<not> (\<exists>item\<in>set (fileList s). name item = file_name (files ! i) \<and> kind item = kind_file) \<longrightarrow>
                (\<exists>rest. rounds ! i = GetFileHandle (targetDirectory s) (file_name (files ! i)) # rest)
                \<and> (all_responded H (hist @ snd (gate H s hist) @ concat (take i rounds)) (rounds ! i) \<longrightarrow>
                     written (rounds ! i) = file_bytes (files ! i)))"
    if i: "i < length files" for i
  proof -
    let ?h = "(hist @ snd (gate H s hist)) @ concat (take i rounds)"
    from r i obtain table where
      t: "rounds ! i = snd (handleFileUpload_file H (targetDirectory s) (fileList s) (files ! i) table ?h)"
      by blast
    show ?thesis
    proof (cases "\<exists>item\<in>set (fileList s). name item = file_name (files ! i) \<and> kind item = kind_file")
      case True
      from existingFile_Some [OF True] obtain x where "existingFile (fileList s) (files ! i) = Some x" ..
      from handleFileUpload_file_skip [OF this, where H = H and target = "targetDirectory s"
          and progress = table and hist = ?h] t True
      show ?thesis by simp
    next
      case False
      note n = handleFileUpload_file_new [OF existingFile_None [OF False],
          where H = H and target = "targetDirectory s" and progress = table and hist = ?h]
      from n have "\<exists>rest. rounds ! i = GetFileHandle (targetDirectory s) (file_name (files ! i)) # rest"
        and "all_responded H (hist @ snd (gate H s hist) @ concat (take i rounds)) (rounds ! i) \<longrightarrow>
               written (rounds ! i) = file_bytes (files ! i)"
        by (simp_all add: t)
      with False show ?thesis by blast
    qed
  qed
  from e m r p show ?thesis by blast
qed

lemma upload_example:
  "snd (snd (handleFileUpload quiet_host [readme_file, note_file] browsing_session [])) =
     [QueryPermission docs readwrite,
      ToastAdd Title_file_exists (Descr_file_exists_upload_skipped ''readme.md'') warning,
      GetFileHandle docs ''note.txt'',
      CreateWritable note_handle, Write note_handle [72, 105, 33], OnProgress 1, Close note_handle,
      ToastAdd Title_upload_succeeded (Descr_file_upload_finished ''note.txt'') success,
      Values docs]"
  by (simp add: eval_defs)

lemma gate_example: "gate quiet_host browsing_session [] = (True, [QueryPermission docs readwrite])"
  by (simp add: eval_defs)

theorem handleFileUpload_conflict_policy_witness:
  "currentPathDirectories browsing_session \<noteq> []
   \<and> fst (gate quiet_host browsing_session [])
   \<and> snd (snd (handleFileUpload quiet_host [readme_file, note_file] browsing_session [])) =
     [QueryPermission docs readwrite,
      ToastAdd Title_file_exists (Descr_file_exists_upload_skipped ''readme.md'') warning,
      GetFileHandle docs ''note.txt'',
      CreateWritable note_handle, Write note_handle [72, 105, 33], OnProgress 1, Close note_handle,
      ToastAdd Title_upload_succeeded (Descr_file_upload_finished ''note.txt'') success,
      Values docs]"
proof -
  have a: "currentPathDirectories browsing_session \<noteq> []"
    by (simp add: browsing_session_def)
  have b: "fst (gate quiet_host browsing_session [])"
    by (simp add: gate_example)
  note t = handleFileUpload_conflict_policy [OF a b, of "[readme_file, note_file]"]
  from t a b upload_example show ?thesis by simp
qed

theorem handleFileUpload_not_written_when_host_fails:
  "find (\<lambda>item. name item = file_name note_file \<and> kind item = kind_file) (fileList browsing_session) = None
   \<and> snd (snd (handleFileUpload (quiet_host\<lparr>createWritable := (\<lambda>_ _. Inl locked)\<rparr>) [note_file]
        browsing_session [])) =
       [QueryPermission docs readwrite, GetFileHandle docs ''note.txt'', CreateWritable note_handle,
        ConsoleError,
        ToastAdd Title_upload_succeeded (Descr_file_upload_finished ''note.txt'') success,
        Values docs]
   \<and> written (snd (snd (handleFileUpload (quiet_host\<lparr>createWritable := (\<lambda>_ _. Inl locked)\<rparr>) [note_file]
        browsing_session []))) \<noteq> file_bytes note_file"
  by (simp add: eval_defs written_def)

text \<open>
  Claim C3 fails on the code. \<open>handleFileUpload\<close> awaits \<open>writeFile\<close> and drops its result,
  and \<open>writeFile\<close> catches every exception: when the write of \<open>note.txt\<close> throws,
  \<open>writeFile\<close> resolves to \<open>false\<close> and the only notification of the upload says that the
  upload succeeded.
\<close>

theorem handleFileUpload_reports_failed_write_as_success:
  "fst (writeFile (quiet_host\<lparr>write_host := (\<lambda>_ _ _. Inl disk_full)\<rparr>) note_handle note_file
          (\<lambda>p table. (Inr (), table(''note.txt'' \<mapsto> math_round_percent quiet_host p)))
          [''note.txt'' \<mapsto> 0]
          [QueryPermission docs readwrite, GetFileHandle docs ''note.txt'']) = Inr False
   \<and> snd (snd (handleFileUpload (quiet_host\<lparr>write_host := (\<lambda>_ _ _. Inl disk_full)\<rparr>) [note_file]
        browsing_session [])) =
       [QueryPermission docs readwrite, GetFileHandle docs ''note.txt'', CreateWritable note_handle,
        Write note_handle [72, 105, 33], ConsoleError,
        ToastAdd Title_upload_succeeded (Descr_file_upload_finished ''note.txt'') success,
        Values docs]
   \<and> filter notification
        (snd (snd (handleFileUpload (quiet_host\<lparr>write_host := (\<lambda>_ _ _. Inl disk_full)\<rparr>) [note_file]
           browsing_session []))) =
       [ToastAdd Title_upload_succeeded (Descr_file_upload_finished ''note.txt'') success]"
  by (simp add: eval_defs count_calls_def)

text \<open>What a round of the upload loop reports: exactly one notification, whatever the
  host does.\<close>

lemma writeChunks_no_notification:
  "filter notification (snd (snd (writeChunks H w f cb offset s hist))) = []"
proof (induction H w f cb offset s hist rule: writeChunks.induct)
  case (1 H w f cb offset s hist)
  show ?case
  proof (cases rule: writeChunks_cases [of offset f H w cb s hist])
    case finished
    then show ?thesis by simp
  next
    case (write_fail e)
    then show ?thesis by simp
  next
    case (callback_fail e s1)
    then show ?thesis by simp
  next
    case (continue r s1 s2 evs)
    from continue(2) obtain u where w: "write_host H hist w (chunkAt f offset) = Inr u"
      by (cases "write_host H hist w (chunkAt f offset)") auto
    from "1.IH" [OF continue(1) refl w refl refl continue(3) [symmetric] refl] continue(4,5)
    show ?thesis by simp
  qed
qed

lemma writeFile_no_notification:
  "filter notification (snd (snd (writeFile H h f cb s hist))) = []"
proof -
  obtain r s1 evs where w: "writeChunks H h f cb 0 s (hist @ [CreateWritable h]) = (r, s1, evs)"
    using prod_cases3 by blast
  with writeChunks_no_notification [of H h f cb 0 s "hist @ [CreateWritable h]"]
  have "filter notification evs = []" by simp
  with w show ?thesis
    by (cases "createWritable H hist h"; cases r; cases "close_host H (hist @ CreateWritable h # evs) h")
       (simp_all add: writeFile_def)
qed

lemma handleFileUpload_file_one_notification:
  "length (filter notification (snd (handleFileUpload_file H target snapshot f progress hist))) = 1"
proof (cases "existingFile snapshot f")
  case (Some x)
  then show ?thesis by (simp add: handleFileUpload_file_skip)
next
  case None
  let ?cb = "\<lambda>p table. (Inr () :: error + unit, table(file_name f \<mapsto> math_round_percent H p))"
  show ?thesis
  proof (cases "getFileHandle H hist target (file_name f)")
    case (Inl e)
    with None show ?thesis
      by (simp add: handleFileUpload_file_def createNewFile_def Let_def)
  next
    case (Inr fileHandle)
    obtain r p1 ev2 where w: "writeFile H fileHandle f ?cb (progress(file_name f \<mapsto> 0))
        (hist @ [GetFileHandle target (file_name f)]) = (r, p1, ev2)"
      using prod_cases3 by blast
    with writeFile_no_notification [of H fileHandle f ?cb "progress(file_name f \<mapsto> 0)"
        "hist @ [GetFileHandle target (file_name f)]"]
    have "filter notification ev2 = []" by simp
    with None Inr w show ?thesis
      by (cases r) (simp_all add: handleFileUpload_file_def createNewFile_def Let_def)
  qed
qed

lemma filter_concat_one_each:
  "\<forall>r\<in>set rounds. length (filter P r) = 1 \<Longrightarrow> length (filter P (concat rounds)) = length rounds"
  by (induction rounds) simp_all

text \<open>A batch that passed the pre-flight issues one notification for each of its files:
  no round is skipped, whatever the host did in the rounds before.\<close>

lemma handleFileUpload_one_notification_per_file:
  assumes "currentPathDirectories s \<noteq> []" and "fst (gate H s hist)"
  shows "length (filter notification (snd (snd (handleFileUpload H files s hist)))) = length files"
proof -
  from handleFileUpload_granted [OF assms, of files] obtain progress rounds ev3 where
    l: "handleFileUpload_loop H (targetDirectory s) (fileList s) files (uploadProgress s)
          (hist @ snd (gate H s hist)) = (progress, rounds)"
    and e: "snd (snd (handleFileUpload H files s hist)) = snd (gate H s hist) @ concat rounds @ ev3"
    and n: "filter notification ev3 = []"
    by metis
  note r = handleFileUpload_loop_rounds [OF l]
  have "length (filter notification x) = 1" if "x \<in> set rounds" for x
  proof -
    from that obtain i where "i < length rounds" and "x = rounds ! i"
      by (auto simp: in_set_conv_nth)
    with r obtain table where
      "x = snd (handleFileUpload_file H (targetDirectory s) (fileList s) (files ! i) table
                  ((hist @ snd (gate H s hist)) @ concat (take i rounds)))"
      by auto
    then show ?thesis
      by (simp add: handleFileUpload_file_one_notification)
  qed
  then have "length (filter notification (concat rounds)) = length rounds"
    by (intro filter_concat_one_each) simp
  with r e n gate_quiet [of H "targetDirectory s" readwrite hist] show ?thesis
    by simp
qed

section \<open>The mutations on the target directory\<close>

lemma deleteItem_cancelled:
  assumes "currentPathDirectories s \<noteq> []" and "fst (gate H s hist)"
    and "deleteConfirmResult H (hist @ snd (gate H s hist)) item = Inr False"
  shows "deleteItem H item s hist = (s, snd (gate H s hist) @ [DeleteConfirmModal item])"
  using assms
  by (cases "currentPathDirectories s"; cases "gate H s hist") (simp_all add: deleteItem_def)

lemma deleteItem_confirmed:
  assumes "currentPathDirectories s \<noteq> []" and "fst (gate H s hist)"
    and "deleteConfirmResult H (hist @ snd (gate H s hist)) item = Inr True"
  shows "\<exists>rest. snd (deleteItem H item s hist)
            = snd (gate H s hist) @ DeleteConfirmModal item # removal s item # rest
          \<and> filter mutation rest = []"
proof -
  obtain ev1 where g: "gate H s hist = (True, ev1)"
    using assms(2) by (cases "gate H s hist") simp
  let ?succeeded = "[deleted_toast item]"
  obtain r ev3 where l: "listDirectoryEntryItems H (targetDirectory s)
      (hist @ ev1 @ [DeleteConfirmModal item, removal s item] @ ?succeeded) = (r, ev3)"
    by (cases "listDirectoryEntryItems H (targetDirectory s)
      (hist @ ev1 @ [DeleteConfirmModal item, removal s item] @ ?succeeded)")
  have q: "filter mutation ev3 = []"
    using listDirectoryEntryItems_quiet [of H "targetDirectory s"
        "hist @ ev1 @ [DeleteConfirmModal item, removal s item] @ ?succeeded"] l by simp
  show ?thesis
    using assms(1,3) g l q
    by (cases "currentPathDirectories s";
        cases "removeEntry H (hist @ ev1 @ [DeleteConfirmModal item]) (targetDirectory s) (name item)
                 (kind item = kind_directory)"; cases r)
       (simp_all add: deleteItem_def)
qed

lemma deleteItem_performed:
  assumes "currentPathDirectories s \<noteq> []" and "fst (gate H s hist)"
    and "deleteConfirmResult H (hist @ snd (gate H s hist)) item = Inr True"
    and "removeEntry H (hist @ snd (gate H s hist) @ [DeleteConfirmModal item]) (targetDirectory s)
           (name item) (kind item = kind_directory) = Inr u"
    and "listDirectoryEntryItems H (targetDirectory s)
           (hist @ snd (gate H s hist) @ [DeleteConfirmModal item, removal s item, deleted_toast item])
         = (Inr items, ev3)"
  shows "deleteItem H item s hist =
     (s\<lparr>fileList := items\<rparr>,
      snd (gate H s hist) @ [DeleteConfirmModal item, removal s item, deleted_toast item] @ ev3)"
  using assms
  by (cases "currentPathDirectories s"; cases "gate H s hist") (simp_all add: deleteItem_def)

lemma createNewFolder_cancelled:
  assumes "currentPathDirectories s \<noteq> []" and "fst (gate H s hist)"
    and "createFolderResult H (hist @ snd (gate H s hist)) (existingFolders s) = Inr None
         \<or> createFolderResult H (hist @ snd (gate H s hist)) (existingFolders s) = Inr (Some [])"
  shows "createNewFolder H s hist = (s, snd (gate H s hist) @ [CreateFolderModal (existingFolders s)])"
  using assms
  by (cases "currentPathDirectories s"; cases "gate H s hist") (auto simp: createNewFolder_def)

lemma createNewFolder_named:
  assumes "currentPathDirectories s \<noteq> []" and "fst (gate H s hist)"
    and "createFolderResult H (hist @ snd (gate H s hist)) (existingFolders s) = Inr (Some folderName)"
    and "folderName \<noteq> []"
  shows "\<exists>rest. snd (createNewFolder H s hist)
            = snd (gate H s hist) @ CreateFolderModal (existingFolders s)
                # GetDirectoryHandle (targetDirectory s) folderName # rest
          \<and> filter mutation rest = []"
proof -
  obtain ev1 where g: "gate H s hist = (True, ev1)"
    using assms(2) by (cases "gate H s hist") simp
  let ?pre = "CreateFolderModal (existingFolders s) # [GetDirectoryHandle (targetDirectory s) folderName]
      @ [created_toast folderName]"
  obtain r ev3 where l: "listDirectoryEntryItems H (targetDirectory s) (hist @ ev1 @ ?pre) = (r, ev3)"
    by (cases "listDirectoryEntryItems H (targetDirectory s) (hist @ ev1 @ ?pre)")
  have q: "filter mutation ev3 = []"
    using listDirectoryEntryItems_quiet [of H "targetDirectory s" "hist @ ev1 @ ?pre"] l by simp
  show ?thesis
    using assms(1,3,4) g l q
    by (cases "currentPathDirectories s";
        cases "getDirectoryHandle_host H (hist @ ev1 @ [CreateFolderModal (existingFolders s)])
                 (targetDirectory s) folderName"; cases r)
       (simp_all add: createNewFolder_def createNewDirectory_def)
qed

lemma createNewFolder_performed:
  assumes "currentPathDirectories s \<noteq> []" and "fst (gate H s hist)"
    and "createFolderResult H (hist @ snd (gate H s hist)) (existingFolders s) = Inr (Some folderName)"
    and "folderName \<noteq> []"
    and "getDirectoryHandle_host H (hist @ snd (gate H s hist) @ [CreateFolderModal (existingFolders s)])
           (targetDirectory s) folderName = Inr created"
    and "listDirectoryEntryItems H (targetDirectory s)
           (hist @ snd (gate H s hist) @ [CreateFolderModal (existingFolders s),
              GetDirectoryHandle (targetDirectory s) folderName, created_toast folderName])
         = (Inr items, ev3)"
  shows "createNewFolder H s hist =
     (s\<lparr>fileList := items\<rparr>,
      snd (gate H s hist) @ [CreateFolderModal (existingFolders s),
         GetDirectoryHandle (targetDirectory s) folderName, created_toast folderName] @ ev3)"
  using assms
  by (cases "currentPathDirectories s"; cases "gate H s hist")
     (simp_all add: createNewFolder_def createNewDirectory_def)


lemma writeFile_opens:
  "\<exists>rest. snd (snd (writeFile H h f cb s hist)) = CreateWritable h # rest"
proof -
  obtain r s1 evs where w: "writeChunks H h f cb 0 s (hist @ [CreateWritable h]) = (r, s1, evs)"
    using prod_cases3 by blast
  then show ?thesis
    by (cases "createWritable H hist h"; cases r; cases "close_host H (hist @ CreateWritable h # evs) h")
       (simp_all add: writeFile_def)
qed

lemma handleFileUpload_file_opens:
  assumes "existingFile snapshot f = None"
    and "getFileHandle H hist target (file_name f) = Inr fileHandle"
  shows "\<exists>rest. snd (handleFileUpload_file H target snapshot f progress hist)
            = GetFileHandle target (file_name f) # CreateWritable fileHandle # rest"
proof -
  let ?cb = "\<lambda>p table. (Inr () :: error + unit, table(file_name f \<mapsto> math_round_percent H p))"
  obtain r p1 ev2 where w: "writeFile H fileHandle f ?cb (progress(file_name f \<mapsto> 0))
      (hist @ [GetFileHandle target (file_name f)]) = (r, p1, ev2)"
    using prod_cases3 by blast
  with writeFile_opens [of H fileHandle f ?cb "progress(file_name f \<mapsto> 0)"
      "hist @ [GetFileHandle target (file_name f)]"]
  obtain rest where "ev2 = CreateWritable fileHandle # rest" by auto
  with assms w show ?thesis
    by (cases r) (simp_all add: handleFileUpload_file_def createNewFile_def Let_def)
qed

lemma handleFileUpload_performed:
  assumes "currentPathDirectories s \<noteq> []" and "fst (gate H s hist)"
  shows "snd (snd (handleFileUpload H files s hist)) =
           snd (gate H s hist) @ concat (uploadRounds H files s hist) @
           snd (listDirectoryEntryItems H (targetDirectory s)
                  (hist @ snd (gate H s hist) @ concat (uploadRounds H files s hist)))"
    and "length (uploadRounds H files s hist) = length files"
    and "\<forall>i<length files. existingFile (fileList s) (files ! i) = None \<longrightarrow>
           (\<exists>rest. uploadRounds H files s hist ! i
                     = GetFileHandle (targetDirectory s) (file_name (files ! i)) # rest)
           \<and> (\<forall>fileHandle.
                 getFileHandle H (hist @ snd (gate H s hist) @ concat (take i (uploadRounds H files s hist)))
                   (targetDirectory s) (file_name (files ! i)) = Inr fileHandle \<longrightarrow>
                 (\<exists>rest. uploadRounds H files s hist ! i
                     = GetFileHandle (targetDirectory s) (file_name (files ! i))
                         # CreateWritable fileHandle # rest))"
    and "\<forall>items. fst (listDirectoryEntryItems H (targetDirectory s)
                  (hist @ snd (gate H s hist) @ concat (uploadRounds H files s hist))) = Inr items \<longrightarrow>
           fst (handleFileUpload H files s hist) = Inr ()
           \<and> fst (snd (handleFileUpload H files s hist)) =
               s\<lparr>fileList := items, uploading := False, uploadQueue := [], uploadProgress := Map.empty\<rparr>"
proof -
  let ?t = "targetDirectory s"
  obtain ev1 where g: "gate H s hist = (True, ev1)"
    using assms(2) by (cases "gate H s hist") simp
  obtain progress rounds where l:
    "handleFileUpload_loop H ?t (fileList s) files (uploadProgress s) (hist @ ev1) = (progress, rounds)"
    by (cases "handleFileUpload_loop H ?t (fileList s) files (uploadProgress s) (hist @ ev1)")
  then have u: "uploadRounds H files s hist = rounds"
    using g by simp
  obtain r ev3 where d: "listDirectoryEntryItems H ?t (hist @ ev1 @ concat rounds) = (r, ev3)"
    by (cases "listDirectoryEntryItems H ?t (hist @ ev1 @ concat rounds)")
  show "snd (snd (handleFileUpload H files s hist)) =
           snd (gate H s hist) @ concat (uploadRounds H files s hist) @
           snd (listDirectoryEntryItems H ?t
                  (hist @ snd (gate H s hist) @ concat (uploadRounds H files s hist)))"
    unfolding u using assms(1) g l d
    by (cases "currentPathDirectories s"; cases r) (simp_all add: handleFileUpload_def)
  show "\<forall>items. fst (listDirectoryEntryItems H ?t
                  (hist @ snd (gate H s hist) @ concat (uploadRounds H files s hist))) = Inr items \<longrightarrow>
           fst (handleFileUpload H files s hist) = Inr ()
           \<and> fst (snd (handleFileUpload H files s hist)) =
               s\<lparr>fileList := items, uploading := False, uploadQueue := [], uploadProgress := Map.empty\<rparr>"
    unfolding u using assms(1) g l d
    by (cases "currentPathDirectories s"; cases r) (simp_all add: handleFileUpload_def)
  note rr = handleFileUpload_loop_rounds [OF l]
  from rr show "length (uploadRounds H files s hist) = length files"
    unfolding u by simp
  show "\<forall>i<length files. existingFile (fileList s) (files ! i) = None \<longrightarrow>
           (\<exists>rest. uploadRounds H files s hist ! i
                     = GetFileHandle ?t (file_name (files ! i)) # rest)
           \<and> (\<forall>fileHandle.
                 getFileHandle H (hist @ snd (gate H s hist) @ concat (take i (uploadRounds H files s hist)))
                   ?t (file_name (files ! i)) = Inr fileHandle \<longrightarrow>
                 (\<exists>rest. uploadRounds H files s hist ! i
                     = GetFileHandle ?t (file_name (files ! i))
                         # CreateWritable fileHandle # rest))"
    unfolding u
  proof (intro allI impI conjI)
    fix i assume i: "i < length files" and n: "existingFile (fileList s) (files ! i) = None"
    from rr i obtain table where
      t: "rounds ! i = snd (handleFileUpload_file H ?t (fileList s) (files ! i) table
                             ((hist @ ev1) @ concat (take i rounds)))"
      by blast
    from handleFileUpload_file_new(1) [OF n, where H = H and target = ?t and progress = table
        and hist = "(hist @ ev1) @ concat (take i rounds)"] t
    show "\<exists>rest. rounds ! i = GetFileHandle ?t (file_name (files ! i)) # rest"
      by simp
    fix fileHandle
    assume "getFileHandle H (hist @ snd (gate H s hist) @ concat (take i rounds)) ?t
              (file_name (files ! i)) = Inr fileHandle"
    then have "getFileHandle H ((hist @ ev1) @ concat (take i rounds)) ?t (file_name (files ! i))
        = Inr fileHandle"
      using g by simp
    from handleFileUpload_file_opens [OF n this, of table] t
    show "\<exists>rest. rounds ! i = GetFileHandle ?t (file_name (files ! i))
                         # CreateWritable fileHandle # rest"
      by simp
  qed
qed

lemma preflight_checks:
  "(currentPathDirectories s = [] \<longrightarrow>
      handleFileUpload H files s hist =
        (Inr (), s, [ToastAdd Title_upload_failed Descr_select_a_directory_first error_color])
      \<and> deleteItem H item s hist =
        (s, [ToastAdd Title_delete_failed Descr_cannot_determine_current_directory error_color])
      \<and> createNewFolder H s hist =
        (s, [ToastAdd Title_create_failed Descr_select_a_directory_first error_color]))
   \<and> (currentPathDirectories s \<noteq> [] \<longrightarrow>
      (\<exists>rest. snd (gate H s hist) = QueryPermission (targetDirectory s) readwrite # rest)
      \<and> filter mutation (snd (gate H s hist)) = []
      \<and> (\<exists>rest. snd (snd (handleFileUpload H files s hist)) = snd (gate H s hist) @ rest)
      \<and> (\<exists>rest. snd (deleteItem H item s hist) = snd (gate H s hist) @ rest)
      \<and> (\<exists>rest. snd (createNewFolder H s hist) = snd (gate H s hist) @ rest))
   \<and> (currentPathDirectories s \<noteq> [] \<and> \<not> fst (gate H s hist) \<longrightarrow>
      handleFileUpload H files s hist =
        (Inr (), s, snd (gate H s hist) @
           [ToastAdd Title_insufficient_permission Descr_no_write_permission_choose_again error_color])
      \<and> deleteItem H item s hist =
        (s, snd (gate H s hist) @
           [ToastAdd Title_insufficient_permission Descr_no_write_permission_cannot_delete error_color])
      \<and> createNewFolder H s hist =
        (s, snd (gate H s hist) @
           [ToastAdd Title_insufficient_permission Descr_no_write_permission_cannot_create_folder error_color]))
   \<and> (filter mutation (snd (snd (handleFileUpload H files s hist))) \<noteq> []
        \<or> filter mutation (snd (deleteItem H item s hist)) \<noteq> []
        \<or> filter mutation (snd (createNewFolder H s hist)) \<noteq> [] \<longrightarrow>
      currentPathDirectories s \<noteq> [] \<and> fst (gate H s hist))"
proof -
  have a: "currentPathDirectories s = [] \<longrightarrow>
      handleFileUpload H files s hist =
        (Inr (), s, [ToastAdd Title_upload_failed Descr_select_a_directory_first error_color])
      \<and> deleteItem H item s hist =
        (s, [ToastAdd Title_delete_failed Descr_cannot_determine_current_directory error_color])
      \<and> createNewFolder H s hist =
        (s, [ToastAdd Title_create_failed Descr_select_a_directory_first error_color])"
    by (simp add: handleFileUpload_empty deleteItem_empty createNewFolder_empty)
  have u: "\<exists>rest. snd (snd (handleFileUpload H files s hist)) = snd (gate H s hist) @ rest"
    if "currentPathDirectories s \<noteq> []"
  proof (cases "fst (gate H s hist)")
    case True
    from handleFileUpload_granted [OF that True, of files] show ?thesis by metis
  next
    case False
    with that show ?thesis by (simp add: handleFileUpload_denied)
  qed
  have b: "currentPathDirectories s \<noteq> [] \<longrightarrow>
      (\<exists>rest. snd (gate H s hist) = QueryPermission (targetDirectory s) readwrite # rest)
      \<and> filter mutation (snd (gate H s hist)) = []
      \<and> (\<exists>rest. snd (snd (handleFileUpload H files s hist)) = snd (gate H s hist) @ rest)
      \<and> (\<exists>rest. snd (deleteItem H item s hist) = snd (gate H s hist) @ rest)
      \<and> (\<exists>rest. snd (createNewFolder H s hist) = snd (gate H s hist) @ rest)"
    using u gate_first [of H "targetDirectory s" readwrite hist]
      gate_no_mutation [of H "targetDirectory s" readwrite hist]
      deleteItem_prefix [of s H item hist] createNewFolder_prefix [of s H hist]
    by simp
  have c: "currentPathDirectories s \<noteq> [] \<and> \<not> fst (gate H s hist) \<longrightarrow>
      handleFileUpload H files s hist =
        (Inr (), s, snd (gate H s hist) @
           [ToastAdd Title_insufficient_permission Descr_no_write_permission_choose_again error_color])
      \<and> deleteItem H item s hist =
        (s, snd (gate H s hist) @
           [ToastAdd Title_insufficient_permission Descr_no_write_permission_cannot_delete error_color])
      \<and> createNewFolder H s hist =
        (s, snd (gate H s hist) @
           [ToastAdd Title_insufficient_permission Descr_no_write_permission_cannot_create_folder error_color])"
    by (simp add: handleFileUpload_denied deleteItem_denied createNewFolder_denied)
  have n: "filter mutation (snd (snd (handleFileUpload H files s hist))) = []
      \<and> filter mutation (snd (deleteItem H item s hist)) = []
      \<and> filter mutation (snd (createNewFolder H s hist)) = []"
    if "\<not> (currentPathDirectories s \<noteq> [] \<and> fst (gate H s hist))"
  proof (cases "currentPathDirectories s = []")
    case True
    with a show ?thesis by simp
  next
    case False
    with that have "\<not> fst (gate H s hist)" by simp
    with False c gate_no_mutation [of H "targetDirectory s" readwrite hist] show ?thesis
      by simp
  qed
  have d: "filter mutation (snd (snd (handleFileUpload H files s hist))) \<noteq> []
        \<or> filter mutation (snd (deleteItem H item s hist)) \<noteq> []
        \<or> filter mutation (snd (createNewFolder H s hist)) \<noteq> [] \<longrightarrow>
      currentPathDirectories s \<noteq> [] \<and> fst (gate H s hist)"
    using n by blast
  show ?thesis
    by (rule conjI [OF a conjI [OF b conjI [OF c d]]])
qed

text \<open>
  Claim C6. Upload, delete and create-folder each take the top of the navigation stack
  as the target. With an empty stack the operation issues one notification (no target
  directory) and nothing else, and the state is unchanged. Otherwise the first calls it
  issues are those of the Permission Gate on the target with mode \<open>readwrite\<close>, which
  change nothing on the host; when the gate denies, the operation adds one notification
  (insufficient permission) and nothing else, and the state is unchanged. So a call that
  changes the host's file system is issued only with a target and after the gate granted.

  Once there is a target and the gate has granted, the operation is performed, on that
  target. The upload runs one round per file of the batch, the round of a file that is
  not in the snapshot opens the file of that name in the target and then its writable
  stream, and the listing of the target is fetched after the last round and becomes the
  listing of the session. Delete asks for confirmation; when it is given, the next call
  removes the entry of that name from the target (recursively exactly for a directory),
  no other call changes the file system, and when the removal and the listing succeed
  the session holds the fresh listing of the target. Create-folder asks for a name; when
  a non-empty one is given, the next call creates the directory of that name in the
  target, no other call changes the file system, and when creation and listing succeed
  the session holds the fresh listing. Without confirmation, or without a name, nothing
  further is issued.
\<close>

theorem mutation_preflight:
  "((currentPathDirectories s = [] \<longrightarrow>
      handleFileUpload H files s hist =
        (Inr (), s, [ToastAdd Title_upload_failed Descr_select_a_directory_first error_color])
      \<and> deleteItem H item s hist =
        (s, [ToastAdd Title_delete_failed Descr_cannot_determine_current_directory error_color])
      \<and> createNewFolder H s hist =
        (s, [ToastAdd Title_create_failed Descr_select_a_directory_first error_color]))
   \<and> (currentPathDirectories s \<noteq> [] \<longrightarrow>
      (\<exists>rest. snd (gate H s hist) = QueryPermission (targetDirectory s) readwrite # rest)
      \<and> filter mutation (snd (gate H s hist)) = []
      \<and> (\<exists>rest. snd (snd (handleFileUpload H files s hist)) = snd (gate H s hist) @ rest)
      \<and> (\<exists>rest. snd (deleteItem H item s hist) = snd (gate H s hist) @ rest)
      \<and> (\<exists>rest. snd (createNewFolder H s hist) = snd (gate H s hist) @ rest))
   \<and> (currentPathDirectories s \<noteq> [] \<and> \<not> fst (gate H s hist) \<longrightarrow>
      handleFileUpload H files s hist =
        (Inr (), s, snd (gate H s hist) @
           [ToastAdd Title_insufficient_permission Descr_no_write_permission_choose_again error_color])
      \<and> deleteItem H item s hist =
        (s, snd (gate H s hist) @
           [ToastAdd Title_insufficient_permission Descr_no_write_permission_cannot_delete error_color])
      \<and> createNewFolder H s hist =
        (s, snd (gate H s hist) @
           [ToastAdd Title_insufficient_permission Descr_no_write_permission_cannot_create_folder error_color]))
   \<and> (filter mutation (snd (snd (handleFileUpload H files s hist))) \<noteq> []
        \<or> filter mutation (snd (deleteItem H item s hist)) \<noteq> []
        \<or> filter mutation (snd (createNewFolder H s hist)) \<noteq> [] \<longrightarrow>
      currentPathDirectories s \<noteq> [] \<and> fst (gate H s hist)))
   \<and> (currentPathDirectories s \<noteq> [] \<and> fst (gate H s hist) \<longrightarrow>
      snd (snd (handleFileUpload H files s hist)) =
           snd (gate H s hist) @ concat (uploadRounds H files s hist) @
           snd (listDirectoryEntryItems H (targetDirectory s)
                  (hist @ snd (gate H s hist) @ concat (uploadRounds H files s hist)))
      \<and> length (uploadRounds H files s hist) = length files
      \<and> (\<forall>i<length files. existingFile (fileList s) (files ! i) = None \<longrightarrow>
           (\<exists>rest. uploadRounds H files s hist ! i
                     = GetFileHandle (targetDirectory s) (file_name (files ! i)) # rest)
           \<and> (\<forall>fileHandle.
                 getFileHandle H (hist @ snd (gate H s hist) @ concat (take i (uploadRounds H files s hist)))
                   (targetDirectory s) (file_name (files ! i)) = Inr fileHandle \<longrightarrow>
                 (\<exists>rest. uploadRounds H files s hist ! i
                     = GetFileHandle (targetDirectory s) (file_name (files ! i))
                         # CreateWritable fileHandle # rest)))
      \<and> (\<forall>items. fst (listDirectoryEntryItems H (targetDirectory s)
                  (hist @ snd (gate H s hist) @ concat (uploadRounds H files s hist))) = Inr items \<longrightarrow>
           fst (handleFileUpload H files s hist) = Inr ()
           \<and> fst (snd (handleFileUpload H files s hist)) =
               s\<lparr>fileList := items, uploading := False, uploadQueue := [], uploadProgress := Map.empty\<rparr>))
   \<and> (currentPathDirectories s \<noteq> [] \<and> fst (gate H s hist) \<longrightarrow>
      (deleteConfirmResult H (hist @ snd (gate H s hist)) item = Inr False \<longrightarrow>
         deleteItem H item s hist = (s, snd (gate H s hist) @ [DeleteConfirmModal item]))
      \<and> (deleteConfirmResult H (hist @ snd (gate H s hist)) item = Inr True \<longrightarrow>
           (\<exists>rest. snd (deleteItem H item s hist)
                     = snd (gate H s hist) @ DeleteConfirmModal item # removal s item # rest
                   \<and> filter mutation rest = [])
           \<and> (\<forall>u items ev3.
                 removeEntry H (hist @ snd (gate H s hist) @ [DeleteConfirmModal item]) (targetDirectory s)
                   (name item) (kind item = kind_directory) = Inr u
                 \<and> listDirectoryEntryItems H (targetDirectory s)
                     (hist @ snd (gate H s hist) @ [DeleteConfirmModal item, removal s item, deleted_toast item])
                   = (Inr items, ev3) \<longrightarrow>
                 deleteItem H item s hist =
                   (s\<lparr>fileList := items\<rparr>,
                    snd (gate H s hist) @ [DeleteConfirmModal item, removal s item, deleted_toast item] @ ev3))))
   \<and> (currentPathDirectories s \<noteq> [] \<and> fst (gate H s hist) \<longrightarrow>
      (createFolderResult H (hist @ snd (gate H s hist)) (existingFolders s) = Inr None
         \<or> createFolderResult H (hist @ snd (gate H s hist)) (existingFolders s) = Inr (Some []) \<longrightarrow>
         createNewFolder H s hist = (s, snd (gate H s hist) @ [CreateFolderModal (existingFolders s)]))
      \<and> (\<forall>folderName.
           createFolderResult H (hist @ snd (gate H s hist)) (existingFolders s) = Inr (Some folderName)
           \<and> folderName \<noteq> [] \<longrightarrow>
           (\<exists>rest. snd (createNewFolder H s hist)
                     = snd (gate H s hist) @ CreateFolderModal (existingFolders s)
                         # GetDirectoryHandle (targetDirectory s) folderName # rest
                   \<and> filter mutation rest = [])
           \<and> (\<forall>created items ev3.
                 getDirectoryHandle_host H (hist @ snd (gate H s hist) @ [CreateFolderModal (existingFolders s)])
                   (targetDirectory s) folderName = Inr created
                 \<and> listDirectoryEntryItems H (targetDirectory s)
                     (hist @ snd (gate H s hist) @ [CreateFolderModal (existingFolders s),
                        GetDirectoryHandle (targetDirectory s) folderName, created_toast folderName])
                   = (Inr items, ev3) \<longrightarrow>
                 createNewFolder H s hist =
                   (s\<lparr>fileList := items\<rparr>,
                    snd (gate H s hist) @ [CreateFolderModal (existingFolders s),
                       GetDirectoryHandle (targetDirectory s) folderName, created_toast folderName] @ ev3))))"
proof -
  have u: "(currentPathDirectories s \<noteq> [] \<and> fst (gate H s hist) \<longrightarrow>
      snd (snd (handleFileUpload H files s hist)) =
           snd (gate H s hist) @ concat (uploadRounds H files s hist) @
           snd (listDirectoryEntryItems H (targetDirectory s)
                  (hist @ snd (gate H s hist) @ concat (uploadRounds H files s hist)))
      \<and> length (uploadRounds H files s hist) = length files
      \<and> (\<forall>i<length files. existingFile (fileList s) (files ! i) = None \<longrightarrow>
           (\<exists>rest. uploadRounds H files s hist ! i
                     = GetFileHandle (targetDirectory s) (file_name (files ! i)) # rest)
           \<and> (\<forall>fileHandle.
                 getFileHandle H (hist @ snd (gate H s hist) @ concat (take i (uploadRounds H files s hist)))
                   (targetDirectory s) (file_name (files ! i)) = Inr fileHandle \<longrightarrow>
                 (\<exists>rest. uploadRounds H files s hist ! i
                     = GetFileHandle (targetDirectory s) (file_name (files ! i))
                         # CreateWritable fileHandle # rest)))
      \<and> (\<forall>items. fst (listDirectoryEntryItems H (targetDirectory s)
                  (hist @ snd (gate H s hist) @ concat (uploadRounds H files s hist))) = Inr items \<longrightarrow>
           fst (handleFileUpload H files s hist) = Inr ()
           \<and> fst (snd (handleFileUpload H files s hist)) =
               s\<lparr>fileList := items, uploading := False, uploadQueue := [], uploadProgress := Map.empty\<rparr>))"
    using handleFileUpload_performed [of s H hist files] by blast
  have d: "(currentPathDirectories s \<noteq> [] \<and> fst (gate H s hist) \<longrightarrow>
      (deleteConfirmResult H (hist @ snd (gate H s hist)) item = Inr False \<longrightarrow>
         deleteItem H item s hist = (s, snd (gate H s hist) @ [DeleteConfirmModal item]))
      \<and> (deleteConfirmResult H (hist @ snd (gate H s hist)) item = Inr True \<longrightarrow>
           (\<exists>rest. snd (deleteItem H item s hist)
                     = snd (gate H s hist) @ DeleteConfirmModal item # removal s item # rest
                   \<and> filter mutation rest = [])
           \<and> (\<forall>u items ev3.
                 removeEntry H (hist @ snd (gate H s hist) @ [DeleteConfirmModal item]) (targetDirectory s)
                   (name item) (kind item = kind_directory) = Inr u
                 \<and> listDirectoryEntryItems H (targetDirectory s)
                     (hist @ snd (gate H s hist) @ [DeleteConfirmModal item, removal s item, deleted_toast item])
                   = (Inr items, ev3) \<longrightarrow>
                 deleteItem H item s hist =
                   (s\<lparr>fileList := items\<rparr>,
                    snd (gate H s hist) @ [DeleteConfirmModal item, removal s item, deleted_toast item] @ ev3))))"
  proof (intro impI conjI allI; (elim conjE)?)
    assume a: "currentPathDirectories s \<noteq> []" "fst (gate H s hist)"
    {
      assume "deleteConfirmResult H (hist @ snd (gate H s hist)) item = Inr False"
      with a show "deleteItem H item s hist = (s, snd (gate H s hist) @ [DeleteConfirmModal item])"
        by (rule deleteItem_cancelled)
    }
    {
      assume c: "deleteConfirmResult H (hist @ snd (gate H s hist)) item = Inr True"
      from a c show "\<exists>rest. snd (deleteItem H item s hist)
                     = snd (gate H s hist) @ DeleteConfirmModal item # removal s item # rest
                   \<and> filter mutation rest = []"
        by (rule deleteItem_confirmed)
      fix u items ev3
      assume "removeEntry H (hist @ snd (gate H s hist) @ [DeleteConfirmModal item]) (targetDirectory s)
                   (name item) (kind item = kind_directory) = Inr u"
        and "listDirectoryEntryItems H (targetDirectory s)
                     (hist @ snd (gate H s hist) @ [DeleteConfirmModal item, removal s item, deleted_toast item])
                   = (Inr items, ev3)"
      with a c show "deleteItem H item s hist =
                   (s\<lparr>fileList := items\<rparr>,
                    snd (gate H s hist) @ [DeleteConfirmModal item, removal s item, deleted_toast item] @ ev3)"
        by (rule deleteItem_performed)
    }
  qed
  have c: "(currentPathDirectories s \<noteq> [] \<and> fst (gate H s hist) \<longrightarrow>
      (createFolderResult H (hist @ snd (gate H s hist)) (existingFolders s) = Inr None
         \<or> createFolderResult H (hist @ snd (gate H s hist)) (existingFolders s) = Inr (Some []) \<longrightarrow>
         createNewFolder H s hist = (s, snd (gate H s hist) @ [CreateFolderModal (existingFolders s)]))
      \<and> (\<forall>folderName.
           createFolderResult H (hist @ snd (gate H s hist)) (existingFolders s) = Inr (Some folderName)
           \<and> folderName \<noteq> [] \<longrightarrow>
           (\<exists>rest. snd (createNewFolder H s hist)
                     = snd (gate H s hist) @ CreateFolderModal (existingFolders s)
                         # GetDirectoryHandle (targetDirectory s) folderName # rest
                   \<and> filter mutation rest = [])
           \<and> (\<forall>created items ev3.
                 getDirectoryHandle_host H (hist @ snd (gate H s hist) @ [CreateFolderModal (existingFolders s)])
                   (targetDirectory s) folderName = Inr created
                 \<and> listDirectoryEntryItems H (targetDirectory s)
                     (hist @ snd (gate H s hist) @ [CreateFolderModal (existingFolders s),
                        GetDirectoryHandle (targetDirectory s) folderName, created_toast folderName])
                   = (Inr items, ev3) \<longrightarrow>
                 createNewFolder H s hist =
                   (s\<lparr>fileList := items\<rparr>,
                    snd (gate H s hist) @ [CreateFolderModal (existingFolders s),
                       GetDirectoryHandle (targetDirectory s) folderName, created_toast folderName] @ ev3))))"
  proof (intro impI conjI allI; (elim conjE)?)
    assume a: "currentPathDirectories s \<noteq> []" "fst (gate H s hist)"
    {
      assume "createFolderResult H (hist @ snd (gate H s hist)) (existingFolders s) = Inr None
         \<or> createFolderResult H (hist @ snd (gate H s hist)) (existingFolders s) = Inr (Some [])"
      with a show "createNewFolder H s hist = (s, snd (gate H s hist) @ [CreateFolderModal (existingFolders s)])"
        by (rule createNewFolder_cancelled)
    }
    {
      fix folderName
      assume n: "createFolderResult H (hist @ snd (gate H s hist)) (existingFolders s) = Inr (Some folderName)"
        "folderName \<noteq> []"
      from a n show "\<exists>rest. snd (createNewFolder H s hist)
                     = snd (gate H s hist) @ CreateFolderModal (existingFolders s)
                         # GetDirectoryHandle (targetDirectory s) folderName # rest
                   \<and> filter mutation rest = []"
        by (rule createNewFolder_named)
      fix created items ev3
      assume "getDirectoryHandle_host H (hist @ snd (gate H s hist) @ [CreateFolderModal (existingFolders s)])
                   (targetDirectory s) folderName = Inr created"
        and "listDirectoryEntryItems H (targetDirectory s)
                     (hist @ snd (gate H s hist) @ [CreateFolderModal (existingFolders s),
                        GetDirectoryHandle (targetDirectory s) folderName, created_toast folderName])
                   = (Inr items, ev3)"
      with a n show "createNewFolder H s hist =
                   (s\<lparr>fileList := items\<rparr>,
                    snd (gate H s hist) @ [CreateFolderModal (existingFolders s),
                       GetDirectoryHandle (targetDirectory s) folderName, created_toast folderName] @ ev3)"
        by (rule createNewFolder_performed)
    }
  qed
  show ?thesis
    by (rule conjI [OF preflight_checks conjI [OF u conjI [OF d c]]])
qed

lemma createNewFolder_example:
  "snd (createNewFolder drafts_host browsing_session []) =
     [QueryPermission docs readwrite, CreateFolderModal [], GetDirectoryHandle docs ''Drafts'',
      ToastAdd Title_create_succeeded (Descr_folder_created ''Drafts'') success, Values docs]"
  by (simp add: eval_session_defs eval_defs)

theorem mutation_preflight_witness:
  "currentPathDirectories home_session = []
   \<and> handleFileUpload quiet_host [note_file] home_session [] =
       (Inr (), home_session, [ToastAdd Title_upload_failed Descr_select_a_directory_first error_color])
   \<and> currentPathDirectories browsing_session \<noteq> []
   \<and> \<not> fst (gate denying_host browsing_session [])
   \<and> deleteItem denying_host readme_item browsing_session [] =
       (browsing_session,
        [QueryPermission docs readwrite,
         ToastAdd Title_insufficient_permission Descr_no_write_permission_cannot_delete error_color])
   \<and> fst (gate drafts_host browsing_session [])
   \<and> filter mutation (snd (createNewFolder drafts_host browsing_session [])) =
       [GetDirectoryHandle docs ''Drafts'']
   \<and> targetDirectory nested_session = drafts
   \<and> fst (gate confirming_host nested_session [])
   \<and> deleteItem confirming_host readme_item nested_session [] =
     (nested_session\<lparr>fileList := []\<rparr>,
      [QueryPermission drafts readwrite, DeleteConfirmModal readme_item,
       RemoveEntry drafts ''readme.md'' False,
       ToastAdd Title_delete_succeeded (Descr_deleted kind_file ''readme.md'') success,
       Values drafts])
   \<and> createNewFolder drafts_host nested_session [] =
     (nested_session\<lparr>fileList := []\<rparr>,
      [QueryPermission drafts readwrite, CreateFolderModal [], GetDirectoryHandle drafts ''Drafts'',
       ToastAdd Title_create_succeeded (Descr_folder_created ''Drafts'') success, Values drafts])
   \<and> handleFileUpload quiet_host [readme_file, note_file] nested_session [] =
     (Inr (), nested_session\<lparr>fileList := []\<rparr>,
      [QueryPermission drafts readwrite,
       ToastAdd Title_file_exists (Descr_file_exists_upload_skipped ''readme.md'') warning,
       GetFileHandle drafts ''note.txt'',
       CreateWritable note_handle, Write note_handle [72, 105, 33], OnProgress 1, Close note_handle,
       ToastAdd Title_upload_succeeded (Descr_file_upload_finished ''note.txt'') success,
       Values drafts])"
proof -
  have e: "currentPathDirectories home_session = []"
    by (simp add: home_session_def)
  have n: "currentPathDirectories browsing_session \<noteq> []" "currentPathDirectories nested_session \<noteq> []"
    by (simp_all add: eval_nested_defs eval_defs)
  have g: "\<not> fst (gate denying_host browsing_session [])" "fst (gate drafts_host browsing_session [])"
    "fst (gate confirming_host nested_session [])" "fst (gate drafts_host nested_session [])"
    "fst (gate quiet_host nested_session [])"
    by (simp_all add: eval_nested_defs eval_session_defs eval_defs)
  have t: "targetDirectory nested_session = drafts"
    by (simp add: eval_nested_defs eval_defs)
  have c: "deleteConfirmResult confirming_host ([] @ snd (gate confirming_host nested_session [])) readme_item
      = Inr True"
    by (simp add: eval_nested_defs eval_defs)
  have r: "removeEntry confirming_host ([] @ snd (gate confirming_host nested_session []) @
        [DeleteConfirmModal readme_item]) (targetDirectory nested_session) (name readme_item)
        (kind readme_item = kind_directory) = Inr ()
    \<and> listDirectoryEntryItems confirming_host (targetDirectory nested_session)
        ([] @ snd (gate confirming_host nested_session []) @
           [DeleteConfirmModal readme_item, removal nested_session readme_item, deleted_toast readme_item])
        = (Inr [], [Values drafts])"
    by (simp add: eval_nested_defs eval_defs)
  have f: "createFolderResult drafts_host ([] @ snd (gate drafts_host nested_session []))
      (existingFolders nested_session) = Inr (Some ''Drafts'') \<and> ''Drafts'' \<noteq> []"
    by (simp add: eval_nested_defs eval_session_defs eval_defs)
  have m: "getDirectoryHandle_host drafts_host ([] @ snd (gate drafts_host nested_session []) @
        [CreateFolderModal (existingFolders nested_session)]) (targetDirectory nested_session) ''Drafts''
        = Inr (child kind_directory ''Drafts'' 2)
    \<and> listDirectoryEntryItems drafts_host (targetDirectory nested_session)
        ([] @ snd (gate drafts_host nested_session []) @
           [CreateFolderModal (existingFolders nested_session),
            GetDirectoryHandle (targetDirectory nested_session) ''Drafts'', created_toast ''Drafts''])
        = (Inr [], [Values drafts])"
    by (simp add: eval_nested_defs eval_session_defs eval_defs)
  have l: "fst (listDirectoryEntryItems quiet_host (targetDirectory nested_session)
        ([] @ snd (gate quiet_host nested_session []) @
           concat (uploadRounds quiet_host [readme_file, note_file] nested_session []))) = Inr []"
    by (simp add: eval_nested_defs eval_defs)
  note empty_stack =
    mutation_preflight [of home_session quiet_host "[note_file]" "[]" readme_item,
      THEN conjunct1, THEN conjunct1, THEN mp, OF e, THEN conjunct1]
  note gate_denies =
    mutation_preflight [of browsing_session denying_host "[note_file]" "[]" readme_item,
      THEN conjunct1, THEN conjunct2, THEN conjunct2, THEN conjunct1, THEN mp, OF conjI [OF n(1) g(1)],
      THEN conjunct2, THEN conjunct1]
  note upload_granted =
    mutation_preflight [of nested_session quiet_host "[readme_file, note_file]" "[]" readme_item,
      THEN conjunct2, THEN conjunct1, THEN mp, OF conjI [OF n(2) g(5)]]
  note upload_calls = upload_granted [THEN conjunct1]
  note upload_state =
    upload_granted [THEN conjunct2, THEN conjunct2, THEN conjunct2, THEN spec, THEN mp, OF l]
  note delete_performed =
    mutation_preflight [of nested_session confirming_host "[note_file]" "[]" readme_item,
      THEN conjunct2, THEN conjunct2, THEN conjunct1, THEN mp, OF conjI [OF n(2) g(3)],
      THEN conjunct2, THEN mp, OF c, THEN conjunct2, THEN spec, THEN spec, THEN spec, THEN mp, OF r]
  note folder_created =
    mutation_preflight [of nested_session drafts_host "[note_file]" "[]" readme_item,
      THEN conjunct2, THEN conjunct2, THEN conjunct2, THEN mp, OF conjI [OF n(2) g(4)],
      THEN conjunct2, THEN spec, THEN mp, OF f, THEN conjunct2, THEN spec, THEN spec, THEN spec,
      THEN mp, OF m]
  have h: "filter mutation (snd (createNewFolder drafts_host browsing_session [])) =
       [GetDirectoryHandle docs ''Drafts'']"
    by (simp add: createNewFolder_example)
  have d: "deleteItem denying_host readme_item browsing_session [] =
       (browsing_session,
        [QueryPermission docs readwrite,
         ToastAdd Title_insufficient_permission Descr_no_write_permission_cannot_delete error_color])"
    using gate_denies by (simp add: eval_session_defs eval_defs)
  have x: "deleteItem confirming_host readme_item nested_session [] =
     (nested_session\<lparr>fileList := []\<rparr>,
      [QueryPermission drafts readwrite, DeleteConfirmModal readme_item,
       RemoveEntry drafts ''readme.md'' False,
       ToastAdd Title_delete_succeeded (Descr_deleted kind_file ''readme.md'') success,
       Values drafts])"
    unfolding delete_performed
    by (simp add: eval_nested_defs requestDirectoryPermission_def quiet_host_def browsing_session_def
          home_session_def readme_item_def)
  have y: "createNewFolder drafts_host nested_session [] =
     (nested_session\<lparr>fileList := []\<rparr>,
      [QueryPermission drafts readwrite, CreateFolderModal [], GetDirectoryHandle drafts ''Drafts'',
       ToastAdd Title_create_succeeded (Descr_folder_created ''Drafts'') success, Values drafts])"
    unfolding folder_created
    by (simp add: eval_nested_defs requestDirectoryPermission_def quiet_host_def drafts_host_def
          browsing_session_def home_session_def readme_item_def)
  have z: "snd (snd (handleFileUpload quiet_host [readme_file, note_file] nested_session [])) =
      [QueryPermission drafts readwrite,
       ToastAdd Title_file_exists (Descr_file_exists_upload_skipped ''readme.md'') warning,
       GetFileHandle drafts ''note.txt'',
       CreateWritable note_handle, Write note_handle [72, 105, 33], OnProgress 1, Close note_handle,
       ToastAdd Title_upload_succeeded (Descr_file_upload_finished ''note.txt'') success,
       Values drafts]"
    unfolding upload_calls
    by (simp add: eval_nested_defs eval_defs)
  have w: "handleFileUpload quiet_host [readme_file, note_file] nested_session [] =
     (Inr (), nested_session\<lparr>fileList := []\<rparr>,
      [QueryPermission drafts readwrite,
       ToastAdd Title_file_exists (Descr_file_exists_upload_skipped ''readme.md'') warning,
       GetFileHandle drafts ''note.txt'',
       CreateWritable note_handle, Write note_handle [72, 105, 33], OnProgress 1, Close note_handle,
       ToastAdd Title_upload_succeeded (Descr_file_upload_finished ''note.txt'') success,
       Values drafts])"
    using upload_state z
    by (cases "handleFileUpload quiet_host [readme_file, note_file] nested_session []")
       (simp add: eval_nested_defs browsing_session_def home_session_def)
  from empty_stack d e n g t h x y w
  show ?thesis by simp
qed

section \<open>Entering a registered directory\<close>












section \<open>Adding a directory\<close>

text \<open>
  Claim C8 fails on the code. The duplicate check of \<open>addNewDirectory\<close> has no \<open>try\<close>
  around the comparison: when \<open>isSameEntry\<close> throws on the first registered handle, the
  second is never fetched or compared, nothing is saved, and the operation ends with the
  notification that adding the directory failed.
\<close>

theorem addNewDirectory_aborts_on_comparison_error:
  "addNewDirectory picking_host home_session [] =
     (home_session,
      [ShowDirectoryPicker, IdbGet ''d1'', IsSameEntry pictures docs,
       ToastAdd Title_add_directory_failed (Descr_message ''permission was not granted'') error_color])"
  by (simp add: eval_session_defs eval_defs)

lemma addNewDirectory_example:
  "addNewDirectory (quiet_host\<lparr>showDirectoryPicker := (\<lambda>_. Inr pictures)\<rparr>) home_session [] =
     (home_session\<lparr>storedDirectories := storedDirectories home_session @ [\<lparr>dir_id = ''uuid-0'', dir_name = ''Pictures''\<rparr>],
        handleStore := (handleStore home_session)(''uuid-0'' \<mapsto> pictures)\<rparr>,
      [ShowDirectoryPicker, IdbGet ''d1'', IsSameEntry pictures docs, IdbGet ''d2'', IsSameEntry pictures music,
       RandomUUID, IdbSet ''uuid-0'' pictures,
       ToastAdd Title_directory_added (Descr_directory_added ''Pictures'') success])"
  by (simp add: eval_session_defs eval_defs)

end
